theory Spec2Isabelle
  imports Complex_Main "HOL-Library.AList" "HOL-Library.Log_Nat"
begin

section \<open>The query cache of \<^verbatim>\<open>src/utils/query_cache.py\<close>\<close>

text \<open>
  A shallow embedding of the class \<^verbatim>\<open>QueryCache\<close>.  Python ints are \<open>int\<close>.  The time
  stamps and the similarities, which the code only compares, are modelled as exact reals;
  the hit rate, which the code computes and rounds, is computed in IEEE 754 doubles.
  The mutable objects a payload consists of live in an explicit heap, because the cache
  stores the caller's dictionary by reference and hands out a copy made with
  \<^verbatim>\<open>dict.copy()\<close>.  The clock (\<^verbatim>\<open>time.time()\<close>) is an argument \<open>now\<close> of each
  operation, read once per call.  An operation that can raise returns the exception as a
  value, next to the state the exception leaves behind.
\<close>

subsection \<open>Python values and the heap\<close>

type_synonym addr = nat

datatype pyval = VNone | VBool bool | VInt int | VFloat real | VStr string | VRef addr

datatype pyobj = ODict "(string \<times> pyval) list" | OList "pyval list"

type_synonym heap = "pyobj list"

datatype error =
  InvalidEmbedding | KeyError | TypeError | AttributeError | OverflowError | ZeroDivisionError

definition heap_dict :: "heap \<Rightarrow> addr \<Rightarrow> (string \<times> pyval) list option" where
  "heap_dict h a =
     (if a < length h then (case h ! a of ODict kv \<Rightarrow> Some kv | OList _ \<Rightarrow> None) else None)"

text \<open>The addresses an object refers to directly, and reachability along references.\<close>

fun val_refs :: "pyval \<Rightarrow> addr list" where
  "val_refs (VRef a) = [a]"
| "val_refs _ = []"

fun obj_refs :: "pyobj \<Rightarrow> addr list" where
  "obj_refs (ODict kv) = concat (map (\<lambda>(k, v). val_refs v) kv)"
| "obj_refs (OList vs) = concat (map val_refs vs)"

inductive reach :: "heap \<Rightarrow> addr \<Rightarrow> addr \<Rightarrow> bool" for h :: heap where
  reach_self: "a < length h \<Longrightarrow> reach h a a"
| reach_step: "reach h a b \<Longrightarrow> b < length h \<Longrightarrow> c \<in> set (obj_refs (h ! b)) \<Longrightarrow> c < length h
                \<Longrightarrow> reach h a c"

text \<open>A heap without dangling references, as every Python heap is.\<close>

definition heap_closed :: "heap \<Rightarrow> bool" where
  "heap_closed h = list_all (\<lambda>ob. list_all (\<lambda>a. a < length h) (obj_refs ob)) h"

text \<open>
  What a caller does with a dictionary it holds: \<^verbatim>\<open>a[key]\<close> for an item that is a
  reference to another object, and \<^verbatim>\<open>b.append(v)\<close> on a list object.
\<close>

definition deref_item :: "heap \<Rightarrow> addr \<Rightarrow> string \<Rightarrow> pyobj option" where
  "deref_item h a key =
     (case heap_dict h a of
        None \<Rightarrow> None
      | Some items \<Rightarrow>
          (case map_of items key of
             Some (VRef b) \<Rightarrow> (if b < length h then Some (h ! b) else None)
           | _ \<Rightarrow> None))"

definition list_append :: "heap \<Rightarrow> addr \<Rightarrow> pyval \<Rightarrow> heap" where
  "list_append h b v =
     (if b < length h
      then (case h ! b of OList vs \<Rightarrow> h[b := OList (vs @ [v])] | ODict _ \<Rightarrow> h)
      else h)"

subsection \<open>Ordered dictionaries\<close>

text \<open>
  An \<^verbatim>\<open>OrderedDict\<close> is an association list, oldest entry first.  Item assignment is
  \<open>AList.update\<close> (in place for a present key, appended for a new one), \<^verbatim>\<open>del\<close> is
  \<open>AList.delete\<close>, \<^verbatim>\<open>popitem(last=False)\<close> is \<open>tl\<close>, and \<^verbatim>\<open>move_to_end\<close> raises
  \<^verbatim>\<open>KeyError\<close> for an absent key.
\<close>

definition move_to_end :: "'k \<Rightarrow> ('k \<times> 'v) list \<Rightarrow> ('k \<times> 'v) list option" where
  "move_to_end k od =
     (case map_of od k of None \<Rightarrow> None | Some v \<Rightarrow> Some (AList.delete k od @ [(k, v)]))"

subsection \<open>The cache object\<close>

record cache_stats =
  exact_hits :: int
  semantic_hits :: int
  misses :: int
  total_queries :: int
  evictions :: int
  ttl_expirations :: int

record exact_entry =
  data :: addr
  timestamp :: real
  query :: string

type_synonym semantic_entry = "real list \<times> addr \<times> real \<times> string"

record query_cache =
  max_size :: int
  similarity_threshold :: real
  ttl_seconds :: "int option"
  enable_semantic_cache :: bool
  exact_cache :: "(string \<times> exact_entry) list"
  semantic_cache :: "(string \<times> semantic_entry) list"
  stats :: cache_stats

definition zero_stats :: cache_stats where
  "zero_stats = \<lparr>exact_hits = 0, semantic_hits = 0, misses = 0, total_queries = 0,
                  evictions = 0, ttl_expirations = 0\<rparr>"

text \<open>\<^verbatim>\<open>__init__\<close>: the four settings are stored as given; no statement of it raises.\<close>

definition init :: "int \<Rightarrow> real \<Rightarrow> int option \<Rightarrow> bool \<Rightarrow> error + query_cache" where
  "init max_size' similarity_threshold' ttl_seconds' enable_semantic_cache' =
     Inr \<lparr>max_size = max_size', similarity_threshold = similarity_threshold',
          ttl_seconds = ttl_seconds', enable_semantic_cache = enable_semantic_cache',
          exact_cache = [], semantic_cache = [], stats = zero_stats\<rparr>"

subsection \<open>Fingerprints\<close>

text \<open>
  \<^verbatim>\<open>_generate_query_hash\<close>.  The SHA-256 hex digest of \<^verbatim>\<open>hashlib\<close> is the argument
  \<open>H\<close>; lower-casing and stripping are modelled on ASCII characters.
\<close>

definition lower_char :: "char \<Rightarrow> char" where
  "lower_char c =
     (let n = (of_char c :: nat) in if 65 \<le> n \<and> n \<le> 90 then char_of (n + 32) else c)"

definition is_space :: "char \<Rightarrow> bool" where
  "is_space c =
     (let n = (of_char c :: nat) in n = 32 \<or> (9 \<le> n \<and> n \<le> 13) \<or> (28 \<le> n \<and> n \<le> 31))"

definition lower :: "string \<Rightarrow> string" where
  "lower s = map lower_char s"

definition strip :: "string \<Rightarrow> string" where
  "strip s = rev (dropWhile is_space (rev (dropWhile is_space s)))"

fun str_nat :: "nat \<Rightarrow> string" where
  "str_nat n =
     (if n < 10 then [char_of (48 + n)] else str_nat (n div 10) @ [char_of (48 + n mod 10)])"

declare str_nat.simps [simp del]

definition str_int :: "int \<Rightarrow> string" where
  "str_int k = (if k < 0 then CHR ''-'' # str_nat (nat (- k)) else str_nat (nat k))"

definition generate_query_hash :: "(string \<Rightarrow> string) \<Rightarrow> string \<Rightarrow> int \<Rightarrow> string" where
  "generate_query_hash H query' k =
     (let normalized = strip (lower query');
          cache_key = normalized @ ''|k='' @ str_int k
      in H cache_key)"

subsection \<open>Expiry and eviction\<close>

definition is_expired :: "query_cache \<Rightarrow> real \<Rightarrow> real \<Rightarrow> bool" where
  "is_expired c now ts =
     (case ttl_seconds c of None \<Rightarrow> False | Some ttl \<Rightarrow> now - ts > of_int ttl)"

text \<open>
  \<^verbatim>\<open>_evict_oldest(cache)\<close> receives one of the two stores of the object; the model
  names the store.
\<close>

datatype store = ExactStore | SemanticStore

fun evict_oldest :: "store \<Rightarrow> query_cache \<Rightarrow> query_cache" where
  "evict_oldest ExactStore c =
     (if exact_cache c \<noteq> []
      then c\<lparr>exact_cache := tl (exact_cache c),
             stats := (stats c)\<lparr>evictions := evictions (stats c) + 1\<rparr>\<rparr>
      else c)"
| "evict_oldest SemanticStore c =
     (if semantic_cache c \<noteq> []
      then c\<lparr>semantic_cache := tl (semantic_cache c),
             stats := (stats c)\<lparr>evictions := evictions (stats c) + 1\<rparr>\<rparr>
      else c)"

text \<open>The combined occupancy \<^verbatim>\<open>len(self.exact_cache) + len(self.semantic_cache)\<close>.\<close>

definition occupancy :: "query_cache \<Rightarrow> int" where
  "occupancy c = int (length (exact_cache c)) + int (length (semantic_cache c))"

text \<open>The body of the \<^verbatim>\<open>while\<close> loop of \<^verbatim>\<open>_ensure_cache_size\<close>, without the counter.\<close>

definition evict_bigger :: "query_cache \<Rightarrow> query_cache" where
  "evict_bigger c =
     (if length (exact_cache c) \<ge> length (semantic_cache c)
      then evict_oldest ExactStore c
      else evict_oldest SemanticStore c)"

function ensure_loop :: "int \<Rightarrow> query_cache \<Rightarrow> query_cache" where
  "ensure_loop total_entries c =
     (if total_entries > max_size c
      then ensure_loop (total_entries - 1) (evict_bigger c)
      else c)"
  by pat_completeness auto
termination
  by (relation "measure (\<lambda>(total_entries, c). nat (total_entries - max_size c))")
     (auto simp: evict_bigger_def)

declare ensure_loop.simps [simp del]

definition ensure_cache_size :: "query_cache \<Rightarrow> query_cache" where
  "ensure_cache_size c = (let total_entries = occupancy c in ensure_loop total_entries c)"

subsection \<open>Cosine similarity\<close>

text \<open>
  Modelled from the spec: \<^verbatim>\<open>cosine_similarity\<close> is imported from scikit-learn and is not
  part of the repository.  The spec defines it as the normalized dot product of two
  equal-length numeric vectors, failing with a dimension-mismatch (\<^verbatim>\<open>InvalidEmbedding\<close>)
  error when the lengths differ.
\<close>

definition dot :: "real list \<Rightarrow> real list \<Rightarrow> real" where
  "dot xs ys = sum_list (map (\<lambda>(x, y). x * y) (zip xs ys))"

definition l2_norm :: "real list \<Rightarrow> real" where
  "l2_norm xs = sqrt (dot xs xs)"

text \<open>A vector of norm zero is left as it is by the normalization.\<close>

definition cos_value :: "real list \<Rightarrow> real list \<Rightarrow> real" where
  "cos_value x y =
     dot x y / ((if l2_norm x = 0 then 1 else l2_norm x) * (if l2_norm y = 0 then 1 else l2_norm y))"

definition cosine_similarity :: "real list \<Rightarrow> real list \<Rightarrow> error + real" where
  "cosine_similarity x y =
     (if length x \<noteq> length y then Inl InvalidEmbedding else Inr (cos_value x y))"

subsection \<open>Lookup\<close>

text \<open>
  \<^verbatim>\<open>_create_cache_response\<close>: \<^verbatim>\<open>data.copy()\<close> makes a new dictionary object with the
  same items (the values are shared, not copied), then the annotations are assigned.  The
  new object is unaliased until it is returned, so it is allocated with its final items.
  The payload is a dictionary by its type annotation; for a list the item assignment
  raises \<^verbatim>\<open>TypeError\<close>.
\<close>

definition create_cache_response ::
  "heap \<Rightarrow> addr \<Rightarrow> string \<Rightarrow> real option \<Rightarrow> error + (addr \<times> heap)" where
  "create_cache_response h d cache_type similarity =
     (case heap_dict h d of
        None \<Rightarrow> Inl TypeError
      | Some items \<Rightarrow>
          let response = items;
              response = AList.update ''_cache_hit'' (VBool True) response;
              response = AList.update ''_cache_type'' (VStr cache_type) response;
              response = (case similarity of
                            None \<Rightarrow> response
                          | Some s \<Rightarrow> AList.update ''_cache_similarity'' (VFloat s) response)
          in Inr (length h, h @ [ODict response]))"

text \<open>
  The \<^verbatim>\<open>for\<close> loop of \<^verbatim>\<open>get\<close> over \<^verbatim>\<open>semantic_cache.items()\<close>; the loop state is
  \<^verbatim>\<open>(best_similarity, best_match, best_hash)\<close>.
\<close>

type_synonym best = "real \<times> addr option \<times> string option"

fun scan :: "query_cache \<Rightarrow> real \<Rightarrow> real list \<Rightarrow> (string \<times> semantic_entry) list \<Rightarrow> best
               \<Rightarrow> error + best" where
  "scan c now query_embedding [] b = Inr b"
| "scan c now query_embedding
        ((cached_hash, (cached_embedding, cached_data, ts, original_query)) # rest)
        (best_similarity, best_match, best_hash) =
     (if is_expired c now ts
      then scan c now query_embedding rest (best_similarity, best_match, best_hash)
      else (case cosine_similarity query_embedding cached_embedding of
              Inl e \<Rightarrow> Inl e
            | Inr similarity \<Rightarrow>
                if similarity > best_similarity
                then scan c now query_embedding rest
                          (similarity, Some cached_data, Some cached_hash)
                else scan c now query_embedding rest
                          (best_similarity, best_match, best_hash)))"

type_synonym outcome = "(error + addr option) \<times> query_cache \<times> heap"

definition count_miss :: "query_cache \<Rightarrow> heap \<Rightarrow> outcome" where
  "count_miss c h = (Inr None, c\<lparr>stats := (stats c)\<lparr>misses := misses (stats c) + 1\<rparr>\<rparr>, h)"

text \<open>
  Lines 156 to 160 of \<^verbatim>\<open>get\<close>: the best entry is promoted, the hit is counted and the
  response is made.  \<^verbatim>\<open>move_to_end(None)\<close> raises \<^verbatim>\<open>KeyError\<close>, as it does for every
  key that is not in the dictionary.
\<close>

definition semantic_hit ::
  "query_cache \<Rightarrow> heap \<Rightarrow> real \<Rightarrow> addr option \<Rightarrow> string option \<Rightarrow> outcome" where
  "semantic_hit c h best_similarity best_match best_hash =
     (case best_hash of
        None \<Rightarrow> (Inl KeyError, c, h)
      | Some bh \<Rightarrow>
          (case move_to_end bh (semantic_cache c) of
             None \<Rightarrow> (Inl KeyError, c, h)
           | Some sc \<Rightarrow>
               let c' = c\<lparr>semantic_cache := sc,
                          stats := (stats c)\<lparr>semantic_hits := semantic_hits (stats c) + 1\<rparr>\<rparr>
               in (case best_match of
                     None \<Rightarrow> (Inl AttributeError, c', h)
                   | Some bm \<Rightarrow>
                       (case create_cache_response h bm ''semantic'' (Some best_similarity) of
                          Inl e \<Rightarrow> (Inl e, c', h)
                        | Inr (r, h') \<Rightarrow> (Inr (Some r), c', h')))))"

text \<open>Lines 131 to 164 of \<^verbatim>\<open>get\<close>: the semantic lookup and the final miss.\<close>

definition get_semantic :: "query_cache \<Rightarrow> heap \<Rightarrow> real \<Rightarrow> real list option \<Rightarrow> outcome" where
  "get_semantic c h now query_embedding =
     (case query_embedding of
        None \<Rightarrow> count_miss c h
      | Some qe \<Rightarrow>
          if \<not> enable_semantic_cache c then count_miss c h
          else (case scan c now qe (semantic_cache c) (0, None, None) of
                  Inl e \<Rightarrow> (Inl e, c, h)
                | Inr (best_similarity, best_match, best_hash) \<Rightarrow>
                    if best_similarity \<ge> similarity_threshold c
                    then semantic_hit c h best_similarity best_match best_hash
                    else count_miss c h))"

text \<open>
  \<^verbatim>\<open>get\<close>.  On an exact hit the fingerprint has just been found in the store, so
  \<^verbatim>\<open>move_to_end\<close> cannot raise there; its result is written out.
\<close>

definition get ::
  "(string \<Rightarrow> string) \<Rightarrow> query_cache \<Rightarrow> heap \<Rightarrow> real \<Rightarrow> string \<Rightarrow> int \<Rightarrow> real list option
     \<Rightarrow> outcome" where
  "get H c h now query' k query_embedding =
     (let c1 = c\<lparr>stats := (stats c)\<lparr>total_queries := total_queries (stats c) + 1\<rparr>\<rparr>;
          query_hash = generate_query_hash H query' k
      in (case map_of (exact_cache c1) query_hash of
            Some entry \<Rightarrow>
              if is_expired c1 now (timestamp entry)
              then get_semantic
                     (c1\<lparr>exact_cache := AList.delete query_hash (exact_cache c1),
                         stats := (stats c1)\<lparr>ttl_expirations :=
                                    ttl_expirations (stats c1) + 1\<rparr>\<rparr>)
                     h now query_embedding
              else (let c2 = c1\<lparr>exact_cache :=
                                   AList.delete query_hash (exact_cache c1)
                                     @ [(query_hash, entry)],
                                 stats := (stats c1)\<lparr>exact_hits :=
                                            exact_hits (stats c1) + 1\<rparr>\<rparr>
                    in (case create_cache_response h (data entry) ''exact'' None of
                          Inl e \<Rightarrow> (Inl e, c2, h)
                        | Inr (r, h') \<Rightarrow> (Inr (Some r), c2, h')))
          | None \<Rightarrow> get_semantic c1 h now query_embedding))"

subsection \<open>Insertion\<close>

text \<open>Lines 182 to 203 of \<^verbatim>\<open>set\<close>: the write into the two stores.\<close>

definition store_entry ::
  "(string \<Rightarrow> string) \<Rightarrow> query_cache \<Rightarrow> real \<Rightarrow> string \<Rightarrow> addr \<Rightarrow> int \<Rightarrow> real list option
     \<Rightarrow> error + query_cache" where
  "store_entry H c now query' response_data k query_embedding =
     (let query_hash = generate_query_hash H query' k;
          ts = now;
          ec = AList.update query_hash
                 \<lparr>data = response_data, timestamp = ts, query = query'\<rparr> (exact_cache c)
      in (case move_to_end query_hash ec of
            None \<Rightarrow> Inl KeyError
          | Some ec' \<Rightarrow>
              let c1 = c\<lparr>exact_cache := ec'\<rparr>
              in (case query_embedding of
                    None \<Rightarrow> Inr c1
                  | Some qe \<Rightarrow>
                      if \<not> enable_semantic_cache c1 then Inr c1
                      else (case move_to_end query_hash
                                   (AList.update query_hash (qe, response_data, ts, query')
                                      (semantic_cache c1)) of
                              None \<Rightarrow> Inl KeyError
                            | Some sc' \<Rightarrow> Inr (c1\<lparr>semantic_cache := sc'\<rparr>)))))"

text \<open>\<^verbatim>\<open>set\<close>: the write, then the eviction pass of line 206.\<close>

definition set_cache ::
  "(string \<Rightarrow> string) \<Rightarrow> query_cache \<Rightarrow> real \<Rightarrow> string \<Rightarrow> addr \<Rightarrow> int \<Rightarrow> real list option
     \<Rightarrow> error + query_cache" where
  "set_cache H c now query' response_data k query_embedding =
     (case store_entry H c now query' response_data k query_embedding of
        Inl e \<Rightarrow> Inl e
      | Inr c1 \<Rightarrow> Inr (ensure_cache_size c1))"

subsection \<open>Floating-point arithmetic\<close>









subsection \<open>Statistics\<close>




subsection \<open>Notions used to state the properties\<close>

text \<open>
  The exact lookup of \<^verbatim>\<open>get\<close> answers the call when the fingerprint is in the exact store
  and its entry has not expired; otherwise the call goes on to the semantic lookup.
\<close>

definition exact_lookup_hits ::
  "(string \<Rightarrow> string) \<Rightarrow> query_cache \<Rightarrow> real \<Rightarrow> string \<Rightarrow> int \<Rightarrow> bool" where
  "exact_lookup_hits H c now query' k =
     (case map_of (exact_cache c) (generate_query_hash H query' k) of
        None \<Rightarrow> False
      | Some entry \<Rightarrow> \<not> is_expired c now (timestamp entry))"

text \<open>The entries of the semantic store the scan compares the query with, in scan order.\<close>

definition unexpired ::
  "query_cache \<Rightarrow> real \<Rightarrow> (string \<times> semantic_entry) list \<Rightarrow> (string \<times> semantic_entry) list" where
  "unexpired c now xs =
     filter (\<lambda>(cached_hash, cached_embedding, cached_data, ts, original_query).
               \<not> is_expired c now ts) xs"

definition embedding_of :: "string \<times> semantic_entry \<Rightarrow> real list" where
  "embedding_of x = fst (snd x)"

text \<open>
  A state in which the eviction pass cannot empty the exact store: there is room for two
  entries, or for one while the semantic store is empty.
\<close>

definition keeps_newest :: "query_cache \<Rightarrow> bool" where
  "keeps_newest c =
     (exact_cache c \<noteq> [] \<and> (2 \<le> max_size c \<or> (1 \<le> max_size c \<and> semantic_cache c = [])))"

text \<open>The hits counted are at most as many as the queries.\<close>

definition hits_bounded :: "query_cache \<Rightarrow> bool" where
  "hits_bounded c =
     (0 \<le> exact_hits (stats c) \<and> 0 \<le> semantic_hits (stats c)
      \<and> exact_hits (stats c) + semantic_hits (stats c) \<le> total_queries (stats c))"

text \<open>The keys of an \<^verbatim>\<open>OrderedDict\<close> are unique.\<close>

definition keys_unique :: "query_cache \<Rightarrow> bool" where
  "keys_unique c = (distinct (map fst (exact_cache c)) \<and> distinct (map fst (semantic_cache c)))"

section \<open>Example states\<close>

text \<open>
  A cache with room for two entries that holds the queries \<^verbatim>\<open>q1\<close> and \<^verbatim>\<open>q2\<close>, and a
  cache constructed with the capacity \<open>-1\<close>.  In the examples the digest \<open>H\<close> is the
  identity.
\<close>

definition two_cache :: query_cache where
  "two_cache =
     \<lparr>max_size = 2, similarity_threshold = 92 / 100, ttl_seconds = Some 3600,
      enable_semantic_cache = True,
      exact_cache = [(''q1|k=5'', \<lparr>data = 0, timestamp = 0, query = ''q1''\<rparr>),
                     (''q2|k=5'', \<lparr>data = 0, timestamp = 1, query = ''q2''\<rparr>)],
      semantic_cache = [], stats = zero_stats\<rparr>"

definition negative_cache :: query_cache where
  "negative_cache =
     \<lparr>max_size = - 1, similarity_threshold = 92 / 100, ttl_seconds = Some 3600,
      enable_semantic_cache = True, exact_cache = [], semantic_cache = [],
      stats = zero_stats\<rparr>"


text \<open>
  A cache with room for one entry, and a heap whose object \<open>0\<close> is the payload
  \<^verbatim>\<open>{'answer': '42'}\<close>.
\<close>

definition one_cache :: query_cache where
  "one_cache =
     \<lparr>max_size = 1, similarity_threshold = 92 / 100, ttl_seconds = Some 3600,
      enable_semantic_cache = True, exact_cache = [], semantic_cache = [],
      stats = zero_stats\<rparr>"

definition answer_heap :: heap where
  "answer_heap = [ODict [(''answer'', VStr ''42'')]]"

text \<open>
  A cache constructed with the threshold \<open>0\<close>, and the same cache after the query
  \<^verbatim>\<open>p\<close> was written with the embedding \<open>(0, 1)\<close>.
\<close>

definition zero_threshold_cache :: query_cache where
  "zero_threshold_cache =
     \<lparr>max_size = 1000, similarity_threshold = 0, ttl_seconds = Some 3600,
      enable_semantic_cache = True, exact_cache = [], semantic_cache = [],
      stats = zero_stats\<rparr>"

definition orthogonal_cache :: query_cache where
  "orthogonal_cache =
     zero_threshold_cache
       \<lparr>exact_cache := [(''p|k=5'', \<lparr>data = 0, timestamp = 0, query = ''p''\<rparr>)],
        semantic_cache := [(''p|k=5'', ([0, 1], 0, 0, ''p''))]\<rparr>"






text \<open>A semantic store whose entry has three components.\<close>

definition mismatch_cache :: query_cache where
  "mismatch_cache =
     \<lparr>max_size = 1000, similarity_threshold = 92 / 100, ttl_seconds = Some 3600,
      enable_semantic_cache = True,
      exact_cache = [(''p|k=5'', \<lparr>data = 0, timestamp = 0, query = ''p''\<rparr>)],
      semantic_cache = [(''p|k=5'', ([1, 0, 0], 0, 0, ''p''))],
      stats = zero_stats\<rparr>"

text \<open>
  A cache with a time-to-live of one minute, and the same cache after \<^verbatim>\<open>a\<close> was written
  at time \<open>0\<close> and \<^verbatim>\<open>b\<close>, with the embedding \<open>(1)\<close>, at time \<open>50\<close>.
\<close>

definition minute_cache :: query_cache where
  "minute_cache =
     \<lparr>max_size = 1000, similarity_threshold = 92 / 100, ttl_seconds = Some 60,
      enable_semantic_cache = True, exact_cache = [], semantic_cache = [],
      stats = zero_stats\<rparr>"

definition stale_cache :: query_cache where
  "stale_cache =
     minute_cache
       \<lparr>exact_cache := [(''a|k=5'', \<lparr>data = 0, timestamp = 0, query = ''a''\<rparr>),
                        (''b|k=5'', \<lparr>data = 0, timestamp = 50, query = ''b''\<rparr>)],
        semantic_cache := [(''b|k=5'', ([1], 0, 50, ''b''))]\<rparr>"

text \<open>
  A heap whose object \<open>0\<close> is the payload \<^verbatim>\<open>{'sources': ['doc1']}\<close>, the list being
  object \<open>1\<close>, and a cache that holds this payload for the query \<^verbatim>\<open>q\<close>.
\<close>

definition nested_heap :: heap where
  "nested_heap = [ODict [(''sources'', VRef 1)], OList [VStr ''doc1'']]"

definition nested_cache :: query_cache where
  "nested_cache =
     \<lparr>max_size = 1000, similarity_threshold = 92 / 100, ttl_seconds = Some 3600,
      enable_semantic_cache = True,
      exact_cache = [(''q|k=5'', \<lparr>data = 0, timestamp = 0, query = ''q''\<rparr>)],
      semantic_cache = [], stats = zero_stats\<rparr>"

text \<open>The cache with the threshold \<open>0\<close> after the query \<^verbatim>\<open>q\<close> was written.\<close>

definition answered_cache :: query_cache where
  "answered_cache =
     zero_threshold_cache
       \<lparr>exact_cache := [(''q|k=5'', \<lparr>data = 0, timestamp = 0, query = ''q''\<rparr>)]\<rparr>"

section \<open>Auxiliary facts\<close>

subsection \<open>Eviction\<close>

lemma max_size_evict_bigger: "max_size (evict_bigger c) = max_size c"
  by (simp add: evict_bigger_def)

lemma evict_bigger_occupancy:
  "0 < occupancy c \<Longrightarrow> occupancy (evict_bigger c) = occupancy c - 1"
  by (cases "exact_cache c"; cases "semantic_cache c")
     (auto simp: occupancy_def evict_bigger_def)

lemma max_size_ensure_loop: "max_size (ensure_loop t c) = max_size c"
  by (induction t c rule: ensure_loop.induct)
     (subst ensure_loop.simps, simp add: max_size_evict_bigger)

text \<open>The counter-driven loop runs its body \<open>total_entries - max_size\<close> times.\<close>

lemma ensure_loop_funpow:
  "ensure_loop t c = (evict_bigger ^^ nat (t - max_size c)) c"
proof (induction t c rule: ensure_loop.induct)
  case (1 t c)
  show ?case
  proof (cases "t > max_size c")
    case True
    then have n: "nat (t - max_size c) = Suc (nat (t - 1 - max_size c))" by simp
    have "ensure_loop t c = ensure_loop (t - 1) (evict_bigger c)"
      using True by (subst ensure_loop.simps) simp
    also have "\<dots> = (evict_bigger ^^ nat (t - 1 - max_size c)) (evict_bigger c)"
      using 1 True by (simp add: max_size_evict_bigger)
    also have "\<dots> = (evict_bigger ^^ nat (t - max_size c)) c"
      unfolding n by (simp add: funpow_swap1)
    finally show ?thesis .
  next
    case False
    then show ?thesis by (subst ensure_loop.simps) simp
  qed
qed

lemma ensure_loop_bound:
  "0 \<le> max_size c \<Longrightarrow> t = occupancy c \<Longrightarrow> occupancy (ensure_loop t c) \<le> max_size c"
proof (induction t c rule: ensure_loop.induct)
  case (1 t c)
  show ?case
  proof (cases "t > max_size c")
    case True
    with 1 have "0 < occupancy c" by simp
    then have "occupancy (evict_bigger c) = t - 1"
      using 1 by (simp add: evict_bigger_occupancy)
    with 1 True have "occupancy (ensure_loop (t - 1) (evict_bigger c)) \<le> max_size c"
      by (simp add: max_size_evict_bigger)
    then show ?thesis using True by (subst ensure_loop.simps) simp
  next
    case False
    with 1 show ?thesis by (subst ensure_loop.simps) simp
  qed
qed

text \<open>The eviction pass keeps the newest exact entry when \<open>keeps_newest\<close> holds.\<close>

lemma ttl_seconds_evict_bigger: "ttl_seconds (evict_bigger c) = ttl_seconds c"
  by (simp add: evict_bigger_def)

lemma ttl_seconds_ensure_loop: "ttl_seconds (ensure_loop t c) = ttl_seconds c"
  by (induction t c rule: ensure_loop.induct)
     (subst ensure_loop.simps, simp add: ttl_seconds_evict_bigger)

lemma stats_hits_evict_bigger: "exact_hits (stats (evict_bigger c)) = exact_hits (stats c)"
  by (simp add: evict_bigger_def)

lemma exact_hits_ensure_loop: "exact_hits (stats (ensure_loop t c)) = exact_hits (stats c)"
  by (induction t c rule: ensure_loop.induct)
     (subst ensure_loop.simps, simp add: stats_hits_evict_bigger)

lemma evict_bigger_keeps:
  assumes "keeps_newest c" "max_size c < occupancy c"
  shows "keeps_newest (evict_bigger c)
         \<and> (\<exists>j. j \<le> 1 \<and> exact_cache (evict_bigger c) = drop j (exact_cache c))"
proof (cases "length (exact_cache c) \<ge> length (semantic_cache c)")
  case True
  with assms have "2 \<le> length (exact_cache c)"
    by (auto simp: keeps_newest_def occupancy_def)
  then obtain x y zs where e: "exact_cache c = x # y # zs"
    by (cases "exact_cache c"; cases "tl (exact_cache c)") auto
  have "exact_cache (evict_bigger c) = drop 1 (exact_cache c)"
    using True e by (simp add: evict_bigger_def)
  moreover have "keeps_newest (evict_bigger c)"
    using True e assms(1) by (auto simp: evict_bigger_def keeps_newest_def)
  ultimately show ?thesis by blast
next
  case False
  then have s: "semantic_cache c \<noteq> []" by auto
  have "exact_cache (evict_bigger c) = drop 0 (exact_cache c)"
    using False by (simp add: evict_bigger_def)
  moreover have "keeps_newest (evict_bigger c)"
    using False s assms(1) by (auto simp: evict_bigger_def keeps_newest_def)
  ultimately show ?thesis by blast
qed

lemma ensure_loop_keeps:
  "t = occupancy c \<Longrightarrow> keeps_newest c \<Longrightarrow>
     \<exists>j. j < length (exact_cache c) \<and> exact_cache (ensure_loop t c) = drop j (exact_cache c)"
proof (induction t c rule: ensure_loop.induct)
  case (1 t c)
  show ?case
  proof (cases "t > max_size c")
    case True
    with 1 have occ: "max_size c < occupancy c" by simp
    then have pos: "0 < occupancy c" using 1(3) by (auto simp: keeps_newest_def)
    from evict_bigger_keeps [OF 1(3) occ] obtain i where
      k: "keeps_newest (evict_bigger c)" and i: "i \<le> 1"
      "exact_cache (evict_bigger c) = drop i (exact_cache c)" by blast
    have "t - 1 = occupancy (evict_bigger c)"
      using 1(2) pos by (simp add: evict_bigger_occupancy)
    from 1(1) [OF True this k] obtain j where
      j: "j < length (exact_cache (evict_bigger c))"
      "exact_cache (ensure_loop (t - 1) (evict_bigger c)) = drop j (exact_cache (evict_bigger c))"
      by blast
    have "ensure_loop t c = ensure_loop (t - 1) (evict_bigger c)"
      using True by (subst ensure_loop.simps) simp
    with i j have "j + i < length (exact_cache c)
        \<and> exact_cache (ensure_loop t c) = drop (j + i) (exact_cache c)"
      by (auto simp: add.commute)
    then show ?thesis by blast
  next
    case False
    then have "ensure_loop t c = c" by (subst ensure_loop.simps) simp
    with 1(3) show ?thesis by (auto simp: keeps_newest_def intro: exI [of _ 0])
  qed
qed

lemma map_of_drop_newest:
  assumes "j < length (AList.delete k od @ [(k, v)])"
  shows "map_of (drop j (AList.delete k od @ [(k, v)])) k = Some v"
proof -
  have "k \<notin> fst ` set (drop j (AList.delete k od))"
    using set_drop_subset [of j "AList.delete k od"] delete_notin_dom [of k od] by auto
  then have "map_of (drop j (AList.delete k od)) k = None"
    by (simp add: map_of_eq_None_iff)
  moreover have "drop j (AList.delete k od @ [(k, v)]) = drop j (AList.delete k od) @ [(k, v)]"
    using assms by simp
  ultimately show ?thesis by (simp add: map_add_def)
qed

subsection \<open>Writing an entry\<close>

lemma move_to_end_update:
  "move_to_end k (AList.update k v od) = Some (AList.delete k od @ [(k, v)])"
  by (simp add: move_to_end_def update_conv' delete_update_same)

lemma store_entry_total:
  "\<exists>c1. store_entry H c now q d k emb = Inr c1 \<and> max_size c1 = max_size c"
  by (cases emb) (auto simp: store_entry_def Let_def move_to_end_update)

text \<open>What the write leaves in the exact store, and which settings it keeps.\<close>

lemma store_entry_exact:
  "\<exists>c1. store_entry H c now q d k emb = Inr c1
        \<and> exact_cache c1 = AList.delete (generate_query_hash H q k) (exact_cache c)
             @ [(generate_query_hash H q k, \<lparr>data = d, timestamp = now, query = q\<rparr>)]
        \<and> max_size c1 = max_size c \<and> ttl_seconds c1 = ttl_seconds c \<and> stats c1 = stats c
        \<and> (emb = None \<or> \<not> enable_semantic_cache c \<longrightarrow> semantic_cache c1 = semantic_cache c)"
  by (cases emb) (auto simp: store_entry_def Let_def move_to_end_update)

lemma get_exact_hit:
  assumes "map_of (exact_cache c) (generate_query_hash H q k) = Some entry"
      and "\<not> is_expired c now (timestamp entry)"
      and "heap_dict h (data entry) = Some items"
  shows "\<exists>c'. get H c h now q k emb =
           (Inr (Some (length h)), c',
            h @ [ODict (AList.update ''_cache_type'' (VStr ''exact'')
                          (AList.update ''_cache_hit'' (VBool True) items))])
         \<and> exact_hits (stats c') = exact_hits (stats c) + 1"
  using assms by (simp add: get_def Let_def is_expired_def create_cache_response_def)

subsection \<open>Counters and rounding\<close>















lemma hits_bounded_init: "init ms thr ttl en = Inr c \<Longrightarrow> hits_bounded c"
  by (auto simp: init_def hits_bounded_def zero_stats_def)

lemma hits_bounded_get_semantic:
  assumes "0 \<le> exact_hits (stats c)" "0 \<le> semantic_hits (stats c)"
      and "exact_hits (stats c) + semantic_hits (stats c) + 1 \<le> total_queries (stats c)"
  shows "hits_bounded (fst (snd (get_semantic c h now emb)))"
  using assms
  by (simp add: get_semantic_def semantic_hit_def count_miss_def hits_bounded_def Let_def
        split: option.splits sum.splits prod.splits)

lemma hits_bounded_get:
  assumes "hits_bounded c"
  shows "hits_bounded (fst (snd (get H c h now q k emb)))"
proof -
  have A: "hits_bounded (fst (snd (get_semantic cx h now emb)))"
    if "exact_hits (stats cx) = exact_hits (stats c)"
       "semantic_hits (stats cx) = semantic_hits (stats c)"
       "total_queries (stats cx) = total_queries (stats c) + 1" for cx
    using that assms by (intro hits_bounded_get_semantic) (simp_all add: hits_bounded_def)
  have B: "hits_bounded c2"
    if "exact_hits (stats c2) = exact_hits (stats c) + 1"
       "semantic_hits (stats c2) = semantic_hits (stats c)"
       "total_queries (stats c2) = total_queries (stats c) + 1" for c2
    using that assms by (simp add: hits_bounded_def)
  let ?qh = "generate_query_hash H q k"
  let ?c1 = "c\<lparr>stats := (stats c)\<lparr>total_queries := total_queries (stats c) + 1\<rparr>\<rparr>"
  show ?thesis
  proof (cases "map_of (exact_cache c) ?qh")
    case None
    then have "get H c h now q k emb = get_semantic ?c1 h now emb"
      by (simp add: get_def Let_def)
    then show ?thesis by (simp add: A)
  next
    case (Some entry)
    show ?thesis
    proof (cases "is_expired c now (timestamp entry)")
      case True
      let ?cx = "?c1\<lparr>exact_cache := AList.delete ?qh (exact_cache ?c1),
                     stats := (stats ?c1)\<lparr>ttl_expirations := ttl_expirations (stats ?c1) + 1\<rparr>\<rparr>"
      from Some True have "get H c h now q k emb = get_semantic ?cx h now emb"
        by (simp add: get_def Let_def is_expired_def)
      then show ?thesis by (simp add: A)
    next
      case False
      let ?c2 = "?c1\<lparr>exact_cache := AList.delete ?qh (exact_cache ?c1) @ [(?qh, entry)],
                     stats := (stats ?c1)\<lparr>exact_hits := exact_hits (stats ?c1) + 1\<rparr>\<rparr>"
      from Some False have "fst (snd (get H c h now q k emb)) = ?c2"
        by (simp add: get_def Let_def is_expired_def split: sum.splits prod.splits)
      then show ?thesis by (simp add: B)
    qed
  qed
qed

subsection \<open>The scan of the semantic store\<close>

lemma scan_expired_head:
  "is_expired c now ts \<Longrightarrow>
     scan c now qe ((hs, (emb, d, ts, oq)) # rest) b = scan c now qe rest b"
  by (cases b) simp

text \<open>One round of the loop on an entry that has not expired.\<close>

lemma scan_step:
  "\<not> is_expired c now ts \<Longrightarrow>
     scan c now qe ((hs, (emb, d, ts, oq)) # rest) (bs, bm, bh) =
       (if length qe \<noteq> length emb then Inl InvalidEmbedding
        else if cos_value qe emb > bs
             then scan c now qe rest (cos_value qe emb, Some d, Some hs)
             else scan c now qe rest (bs, bm, bh))"
  by (simp add: cosine_similarity_def)

declare scan.simps(2) [simp del]

lemma unexpired_simps:
  "unexpired c now [] = []"
  "unexpired c now ((hs, (emb, d, ts, oq)) # rest) =
     (if is_expired c now ts then unexpired c now rest
      else (hs, (emb, d, ts, oq)) # unexpired c now rest)"
  by (simp_all add: unexpired_def)

lemma scan_mismatch:
  "\<exists>x \<in> set (unexpired c now xs). length (embedding_of x) \<noteq> length qe \<Longrightarrow>
     scan c now qe xs b = Inl InvalidEmbedding"
proof (induction xs arbitrary: b)
  case Nil
  then show ?case by (simp add: unexpired_simps)
next
  case (Cons x xs)
  obtain hs emb d ts oq where x: "x = (hs, (emb, d, ts, oq))" by (cases x) auto
  obtain bs bm bh where b: "b = (bs, bm, bh)" by (cases b) auto
  show ?case
  proof (cases "is_expired c now ts")
    case True
    with Cons show ?thesis by (simp add: x b unexpired_simps scan_expired_head)
  next
    case False
    show ?thesis
    proof (cases "length qe = length emb")
      case True
      with False Cons.prems have "\<exists>x \<in> set (unexpired c now xs). length (embedding_of x) \<noteq> length qe"
        by (simp add: x unexpired_simps embedding_of_def)
      then have "\<And>b. scan c now qe xs b = Inl InvalidEmbedding" using Cons.IH by blast
      with False True show ?thesis by (simp add: x b scan_step)
    next
      case F: False
      with False show ?thesis by (simp add: x b scan_step)
    qed
  qed
qed

text \<open>The result of a scan that meets no mismatch.\<close>

lemma scan_result:
  assumes "\<forall>x \<in> set (unexpired c now xs). length (embedding_of x) = length qe"
  shows "\<exists>bs bm bh. scan c now qe xs (bs0, bm0, bh0) = Inr (bs, bm, bh)
           \<and> ((bs = bs0 \<and> bm = bm0 \<and> bh = bh0
                 \<and> (\<forall>x \<in> set (unexpired c now xs). cos_value qe (embedding_of x) \<le> bs0))
               \<or> (\<exists>pre hs emb d ts oq post.
                     unexpired c now xs = pre @ [(hs, (emb, d, ts, oq))] @ post
                     \<and> bs = cos_value qe emb \<and> bm = Some d \<and> bh = Some hs \<and> bs0 < bs
                     \<and> (\<forall>x \<in> set pre. cos_value qe (embedding_of x) < bs)
                     \<and> (\<forall>x \<in> set post. cos_value qe (embedding_of x) \<le> bs)))"
  using assms
proof (induction xs arbitrary: bs0 bm0 bh0)
  case Nil
  then show ?case by (simp add: unexpired_simps)
next
  case (Cons x xs)
  obtain hs emb d ts oq where x: "x = (hs, (emb, d, ts, oq))" by (cases x) auto
  show ?case
  proof (cases "is_expired c now ts")
    case True
    with Cons.prems have "\<forall>x \<in> set (unexpired c now xs). length (embedding_of x) = length qe"
      by (simp add: x unexpired_simps)
    from Cons.IH [OF this, of bs0 bm0 bh0] True show ?thesis
      by (simp add: x unexpired_simps scan_expired_head)
  next
    case False
    with Cons.prems have len: "length qe = length emb"
      and rest: "\<forall>x \<in> set (unexpired c now xs). length (embedding_of x) = length qe"
      by (simp_all add: x unexpired_simps embedding_of_def)
    have cs: "unexpired c now (x # xs) = (hs, (emb, d, ts, oq)) # unexpired c now xs"
      using False by (simp add: x unexpired_simps)
    let ?s = "cos_value qe emb"
    show ?thesis
    proof (cases "?s > bs0")
      case True
      have sc: "scan c now qe (x # xs) (bs0, bm0, bh0) = scan c now qe xs (?s, Some d, Some hs)"
        using False len True by (simp add: x scan_step)
      from Cons.IH [OF rest, of ?s "Some d" "Some hs"] obtain bs bm bh where
        r: "scan c now qe xs (?s, Some d, Some hs) = Inr (bs, bm, bh)"
        and alt: "(bs = ?s \<and> bm = Some d \<and> bh = Some hs
                 \<and> (\<forall>x \<in> set (unexpired c now xs). cos_value qe (embedding_of x) \<le> ?s))
               \<or> (\<exists>pre hs' emb' d' ts' oq' post.
                     unexpired c now xs = pre @ [(hs', (emb', d', ts', oq'))] @ post
                     \<and> bs = cos_value qe emb' \<and> bm = Some d' \<and> bh = Some hs' \<and> ?s < bs
                     \<and> (\<forall>x \<in> set pre. cos_value qe (embedding_of x) < bs)
                     \<and> (\<forall>x \<in> set post. cos_value qe (embedding_of x) \<le> bs))"
        by blast
      from alt have "\<exists>pre hs' emb' d' ts' oq' post.
                     unexpired c now (x # xs) = pre @ [(hs', (emb', d', ts', oq'))] @ post
                     \<and> bs = cos_value qe emb' \<and> bm = Some d' \<and> bh = Some hs' \<and> bs0 < bs
                     \<and> (\<forall>x \<in> set pre. cos_value qe (embedding_of x) < bs)
                     \<and> (\<forall>x \<in> set post. cos_value qe (embedding_of x) \<le> bs)"
      proof
        assume a: "bs = ?s \<and> bm = Some d \<and> bh = Some hs
                 \<and> (\<forall>x \<in> set (unexpired c now xs). cos_value qe (embedding_of x) \<le> ?s)"
        have "unexpired c now (x # xs) = [] @ [(hs, (emb, d, ts, oq))] @ unexpired c now xs"
          by (simp add: cs)
        with a True show ?thesis by (metis empty_iff list.set(1))
      next
        assume "\<exists>pre hs' emb' d' ts' oq' post.
                     unexpired c now xs = pre @ [(hs', (emb', d', ts', oq'))] @ post
                     \<and> bs = cos_value qe emb' \<and> bm = Some d' \<and> bh = Some hs' \<and> ?s < bs
                     \<and> (\<forall>x \<in> set pre. cos_value qe (embedding_of x) < bs)
                     \<and> (\<forall>x \<in> set post. cos_value qe (embedding_of x) \<le> bs)"
        then obtain pre hs' emb' d' ts' oq' post where
          p: "unexpired c now xs = pre @ [(hs', (emb', d', ts', oq'))] @ post"
             "bs = cos_value qe emb'" "bm = Some d'" "bh = Some hs'" "?s < bs"
             "\<forall>x \<in> set pre. cos_value qe (embedding_of x) < bs"
             "\<forall>x \<in> set post. cos_value qe (embedding_of x) \<le> bs"
          by blast
        have "unexpired c now (x # xs) =
                ((hs, (emb, d, ts, oq)) # pre) @ [(hs', (emb', d', ts', oq'))] @ post"
          by (simp add: cs p(1))
        moreover have "\<forall>x \<in> set ((hs, (emb, d, ts, oq)) # pre). cos_value qe (embedding_of x) < bs"
          using p(5,6) by (simp add: embedding_of_def)
        moreover have "bs0 < bs" using True p(5) by simp
        ultimately show ?thesis using p(2,3,4,7) by blast
      qed
      with sc r show ?thesis by simp
    next
      case F: False
      have sc: "scan c now qe (x # xs) (bs0, bm0, bh0) = scan c now qe xs (bs0, bm0, bh0)"
        using False len F by (simp add: x scan_step)
      from Cons.IH [OF rest, of bs0 bm0 bh0] obtain bs bm bh where
        r: "scan c now qe xs (bs0, bm0, bh0) = Inr (bs, bm, bh)"
        and alt: "(bs = bs0 \<and> bm = bm0 \<and> bh = bh0
                 \<and> (\<forall>x \<in> set (unexpired c now xs). cos_value qe (embedding_of x) \<le> bs0))
               \<or> (\<exists>pre hs' emb' d' ts' oq' post.
                     unexpired c now xs = pre @ [(hs', (emb', d', ts', oq'))] @ post
                     \<and> bs = cos_value qe emb' \<and> bm = Some d' \<and> bh = Some hs' \<and> bs0 < bs
                     \<and> (\<forall>x \<in> set pre. cos_value qe (embedding_of x) < bs)
                     \<and> (\<forall>x \<in> set post. cos_value qe (embedding_of x) \<le> bs))"
        by blast
      from alt have "(bs = bs0 \<and> bm = bm0 \<and> bh = bh0
                 \<and> (\<forall>x \<in> set (unexpired c now (x # xs)). cos_value qe (embedding_of x) \<le> bs0))
               \<or> (\<exists>pre hs' emb' d' ts' oq' post.
                     unexpired c now (x # xs) = pre @ [(hs', (emb', d', ts', oq'))] @ post
                     \<and> bs = cos_value qe emb' \<and> bm = Some d' \<and> bh = Some hs' \<and> bs0 < bs
                     \<and> (\<forall>x \<in> set pre. cos_value qe (embedding_of x) < bs)
                     \<and> (\<forall>x \<in> set post. cos_value qe (embedding_of x) \<le> bs))"
      proof
        assume "bs = bs0 \<and> bm = bm0 \<and> bh = bh0
                 \<and> (\<forall>x \<in> set (unexpired c now xs). cos_value qe (embedding_of x) \<le> bs0)"
        with F show ?thesis by (simp add: cs embedding_of_def)
      next
        assume "\<exists>pre hs' emb' d' ts' oq' post.
                     unexpired c now xs = pre @ [(hs', (emb', d', ts', oq'))] @ post
                     \<and> bs = cos_value qe emb' \<and> bm = Some d' \<and> bh = Some hs' \<and> bs0 < bs
                     \<and> (\<forall>x \<in> set pre. cos_value qe (embedding_of x) < bs)
                     \<and> (\<forall>x \<in> set post. cos_value qe (embedding_of x) \<le> bs)"
        then obtain pre hs' emb' d' ts' oq' post where
          p: "unexpired c now xs = pre @ [(hs', (emb', d', ts', oq'))] @ post"
             "bs = cos_value qe emb'" "bm = Some d'" "bh = Some hs'" "bs0 < bs"
             "\<forall>x \<in> set pre. cos_value qe (embedding_of x) < bs"
             "\<forall>x \<in> set post. cos_value qe (embedding_of x) \<le> bs"
          by blast
        have "unexpired c now (x # xs) =
                ((hs, (emb, d, ts, oq)) # pre) @ [(hs', (emb', d', ts', oq'))] @ post"
          by (simp add: cs p(1))
        moreover have "\<forall>x \<in> set ((hs, (emb, d, ts, oq)) # pre). cos_value qe (embedding_of x) < bs"
          using p(5,6) F by (simp add: embedding_of_def)
        ultimately show ?thesis using p(2,3,4,5,7) by blast
      qed
      with sc r show ?thesis by simp
    qed
  qed
qed


subsection \<open>The semantic lookup\<close>

lemma unexpired_cong:
  "ttl_seconds c' = ttl_seconds c \<Longrightarrow> unexpired c' now xs = unexpired c now xs"
  by (simp add: unexpired_def is_expired_def)

text \<open>The call continues with the semantic lookup when the exact lookup does not answer.\<close>

lemma get_semantic_path:
  assumes "\<not> exact_lookup_hits H c now q k"
  shows "\<exists>cx. get H c h now q k emb = get_semantic cx h now emb
            \<and> semantic_cache cx = semantic_cache c \<and> ttl_seconds cx = ttl_seconds c
            \<and> similarity_threshold cx = similarity_threshold c
            \<and> enable_semantic_cache cx = enable_semantic_cache c
            \<and> semantic_hits (stats cx) = semantic_hits (stats c)"
  using assms
  by (auto simp: exact_lookup_hits_def get_def Let_def is_expired_def split: option.splits)

lemma unexpired_subset: "set (unexpired c now xs) \<subseteq> set xs"
  by (auto simp: unexpired_def)

lemma get_semantic_mismatch:
  assumes "enable_semantic_cache c"
      and "\<exists>x \<in> set (unexpired c now (semantic_cache c)). length (embedding_of x) \<noteq> length qe"
  shows "get_semantic c h now (Some qe) = (Inl InvalidEmbedding, c, h)"
  using assms scan_mismatch [of c now "semantic_cache c" qe "(0, None, None)"]
  by (simp add: get_semantic_def)

lemma semantic_hit_found:
  assumes "(hs, v) \<in> set (semantic_cache c)"
  shows "\<exists>v'. map_of (semantic_cache c) hs = Some v'
           \<and> (distinct (map fst (semantic_cache c)) \<longrightarrow> v' = v)
           \<and> semantic_hit c h s (Some d) (Some hs) =
               (case heap_dict h d of
                  None \<Rightarrow> (Inl TypeError,
                            c\<lparr>semantic_cache := AList.delete hs (semantic_cache c) @ [(hs, v')],
                              stats := (stats c)\<lparr>semantic_hits := semantic_hits (stats c) + 1\<rparr>\<rparr>, h)
                | Some items \<Rightarrow>
                    (Inr (Some (length h)),
                     c\<lparr>semantic_cache := AList.delete hs (semantic_cache c) @ [(hs, v')],
                       stats := (stats c)\<lparr>semantic_hits := semantic_hits (stats c) + 1\<rparr>\<rparr>,
                     h @ [ODict (AList.update ''_cache_similarity'' (VFloat s)
                                   (AList.update ''_cache_type'' (VStr ''semantic'')
                                      (AList.update ''_cache_hit'' (VBool True) items)))]))"
proof -
  from assms have "hs \<in> fst ` set (semantic_cache c)" by force
  then obtain v' where v': "map_of (semantic_cache c) hs = Some v'"
    by (metis map_of_eq_None_iff not_Some_eq)
  have "distinct (map fst (semantic_cache c)) \<longrightarrow> v' = v"
    using assms v' by auto
  moreover have "semantic_hit c h s (Some d) (Some hs) =
               (case heap_dict h d of
                  None \<Rightarrow> (Inl TypeError,
                            c\<lparr>semantic_cache := AList.delete hs (semantic_cache c) @ [(hs, v')],
                              stats := (stats c)\<lparr>semantic_hits := semantic_hits (stats c) + 1\<rparr>\<rparr>, h)
                | Some items \<Rightarrow>
                    (Inr (Some (length h)),
                     c\<lparr>semantic_cache := AList.delete hs (semantic_cache c) @ [(hs, v')],
                       stats := (stats c)\<lparr>semantic_hits := semantic_hits (stats c) + 1\<rparr>\<rparr>,
                     h @ [ODict (AList.update ''_cache_similarity'' (VFloat s)
                                   (AList.update ''_cache_type'' (VStr ''semantic'')
                                      (AList.update ''_cache_hit'' (VBool True) items)))]))"
    by (simp add: semantic_hit_def move_to_end_def v' create_cache_response_def Let_def
             split: option.splits)
  ultimately show ?thesis using v' by blast
qed

text \<open>
  The two ways a semantic lookup without a mismatch can go: no compared entry is more
  similar than \<open>0\<close> and the loop state is still the initial one, or the first entry of
  greatest similarity is the best one.
\<close>

lemma get_semantic_cases:
  assumes "enable_semantic_cache c"
      and "\<forall>x \<in> set (unexpired c now (semantic_cache c)). length (embedding_of x) = length qe"
  shows "((\<forall>x \<in> set (unexpired c now (semantic_cache c)). cos_value qe (embedding_of x) \<le> 0)
          \<and> get_semantic c h now (Some qe) =
              (if 0 \<ge> similarity_threshold c then (Inl KeyError, c, h) else count_miss c h))
       \<or> (\<exists>pre hs emb d ts oq post.
             unexpired c now (semantic_cache c) = pre @ [(hs, (emb, d, ts, oq))] @ post
             \<and> 0 < cos_value qe emb
             \<and> (\<forall>x \<in> set pre. cos_value qe (embedding_of x) < cos_value qe emb)
             \<and> (\<forall>x \<in> set post. cos_value qe (embedding_of x) \<le> cos_value qe emb)
             \<and> get_semantic c h now (Some qe) =
                 (if cos_value qe emb \<ge> similarity_threshold c
                  then semantic_hit c h (cos_value qe emb) (Some d) (Some hs)
                  else count_miss c h))"
proof -
  from scan_result [OF assms(2), of 0 None None] obtain bs bm bh where
    r: "scan c now qe (semantic_cache c) (0, None, None) = Inr (bs, bm, bh)"
    and alt: "(bs = 0 \<and> bm = None \<and> bh = None
                 \<and> (\<forall>x \<in> set (unexpired c now (semantic_cache c)). cos_value qe (embedding_of x) \<le> 0))
               \<or> (\<exists>pre hs emb d ts oq post.
                     unexpired c now (semantic_cache c) = pre @ [(hs, (emb, d, ts, oq))] @ post
                     \<and> bs = cos_value qe emb \<and> bm = Some d \<and> bh = Some hs \<and> 0 < bs
                     \<and> (\<forall>x \<in> set pre. cos_value qe (embedding_of x) < bs)
                     \<and> (\<forall>x \<in> set post. cos_value qe (embedding_of x) \<le> bs))"
    by blast
  have g: "get_semantic c h now (Some qe) =
             (if bs \<ge> similarity_threshold c then semantic_hit c h bs bm bh else count_miss c h)"
    using assms(1) by (simp add: get_semantic_def r)
  from alt show ?thesis
  proof
    assume "bs = 0 \<and> bm = None \<and> bh = None
                 \<and> (\<forall>x \<in> set (unexpired c now (semantic_cache c)). cos_value qe (embedding_of x) \<le> 0)"
    then show ?thesis using g by (simp add: semantic_hit_def)
  next
    assume "\<exists>pre hs emb d ts oq post.
                     unexpired c now (semantic_cache c) = pre @ [(hs, (emb, d, ts, oq))] @ post
                     \<and> bs = cos_value qe emb \<and> bm = Some d \<and> bh = Some hs \<and> 0 < bs
                     \<and> (\<forall>x \<in> set pre. cos_value qe (embedding_of x) < bs)
                     \<and> (\<forall>x \<in> set post. cos_value qe (embedding_of x) \<le> bs)"
    then obtain pre hs emb d ts oq post where
      p: "unexpired c now (semantic_cache c) = pre @ [(hs, (emb, d, ts, oq))] @ post"
         "bs = cos_value qe emb" "bm = Some d" "bh = Some hs" "0 < bs"
         "\<forall>x \<in> set pre. cos_value qe (embedding_of x) < bs"
         "\<forall>x \<in> set post. cos_value qe (embedding_of x) \<le> bs"
      by blast
    then have "unexpired c now (semantic_cache c) = pre @ [(hs, (emb, d, ts, oq))] @ post
             \<and> 0 < cos_value qe emb
             \<and> (\<forall>x \<in> set pre. cos_value qe (embedding_of x) < cos_value qe emb)
             \<and> (\<forall>x \<in> set post. cos_value qe (embedding_of x) \<le> cos_value qe emb)
             \<and> get_semantic c h now (Some qe) =
                 (if cos_value qe emb \<ge> similarity_threshold c
                  then semantic_hit c h (cos_value qe emb) (Some d) (Some hs)
                  else count_miss c h)"
      using g by simp
    then show ?thesis by blast
  qed
qed


lemma get_semantic_frame:
  "exact_cache (fst (snd (get_semantic c h now emb))) = exact_cache c
   \<and> ttl_expirations (stats (fst (snd (get_semantic c h now emb)))) = ttl_expirations (stats c)
   \<and> exact_hits (stats (fst (snd (get_semantic c h now emb)))) = exact_hits (stats c)"
  by (simp add: get_semantic_def semantic_hit_def count_miss_def Let_def
           split: option.splits sum.splits prod.splits)

lemma get_semantic_off:
  "emb = None \<or> \<not> enable_semantic_cache c \<Longrightarrow> get_semantic c h now emb = count_miss c h"
  by (auto simp: get_semantic_def split: option.splits)

text \<open>With a positive threshold the best similarity decides between hit and miss.\<close>

lemma semantic_threshold_positive:
  assumes "\<not> exact_lookup_hits H c now q k"
      and "enable_semantic_cache c"
      and "0 < similarity_threshold c"
      and "unexpired c now (semantic_cache c) \<noteq> []"
      and "\<forall>x \<in> set (unexpired c now (semantic_cache c)). length (embedding_of x) = length qe"
      and "\<forall>x \<in> set (semantic_cache c). heap_dict h (fst (snd (snd x))) \<noteq> None"
  shows "(similarity_threshold c
            \<le> Max ((\<lambda>x. cos_value qe (embedding_of x)) ` set (unexpired c now (semantic_cache c)))
          \<longrightarrow> fst (get H c h now q k (Some qe)) = Inr (Some (length h)))
       \<and> (Max ((\<lambda>x. cos_value qe (embedding_of x)) ` set (unexpired c now (semantic_cache c)))
            < similarity_threshold c
          \<longrightarrow> fst (get H c h now q k (Some qe)) = Inr None)"
proof -
  obtain cx where cx: "get H c h now q k (Some qe) = get_semantic cx h now (Some qe)"
    "semantic_cache cx = semantic_cache c" "ttl_seconds cx = ttl_seconds c"
    "similarity_threshold cx = similarity_threshold c"
    "enable_semantic_cache cx = enable_semantic_cache c"
    using get_semantic_path [OF assms(1)] by blast
  have u: "unexpired cx now (semantic_cache cx) = unexpired c now (semantic_cache c)"
    using unexpired_cong [of cx c now "semantic_cache c"] cx by simp
  let ?U = "unexpired c now (semantic_cache c)"
  let ?S = "(\<lambda>x. cos_value qe (embedding_of x)) ` set ?U"
  have fin: "finite ?S" "?S \<noteq> {}" using assms(4) by auto
  have en: "enable_semantic_cache cx" using assms(2) cx by simp
  have dims: "\<forall>x \<in> set (unexpired cx now (semantic_cache cx)). length (embedding_of x) = length qe"
    using assms(5) u by simp
  from get_semantic_cases [OF en dims, of h] show ?thesis
  proof
    assume a: "(\<forall>x \<in> set (unexpired cx now (semantic_cache cx)). cos_value qe (embedding_of x) \<le> 0)
          \<and> get_semantic cx h now (Some qe) =
              (if 0 \<ge> similarity_threshold cx then (Inl KeyError, cx, h) else count_miss cx h)"
    then have "Max ?S \<le> 0" using fin u by (simp add: Max_le_iff)
    moreover have "get_semantic cx h now (Some qe) = count_miss cx h"
      using a assms(3) cx by simp
    ultimately show ?thesis using assms(3) by (simp add: cx(1) count_miss_def)
  next
    assume "\<exists>pre hs emb d ts oq post.
             unexpired cx now (semantic_cache cx) = pre @ [(hs, (emb, d, ts, oq))] @ post
             \<and> 0 < cos_value qe emb
             \<and> (\<forall>x \<in> set pre. cos_value qe (embedding_of x) < cos_value qe emb)
             \<and> (\<forall>x \<in> set post. cos_value qe (embedding_of x) \<le> cos_value qe emb)
             \<and> get_semantic cx h now (Some qe) =
                 (if cos_value qe emb \<ge> similarity_threshold cx
                  then semantic_hit cx h (cos_value qe emb) (Some d) (Some hs)
                  else count_miss cx h)"
    then obtain pre hs emb d ts oq post where
      p: "?U = pre @ [(hs, (emb, d, ts, oq))] @ post"
         "\<forall>x \<in> set pre. cos_value qe (embedding_of x) < cos_value qe emb"
         "\<forall>x \<in> set post. cos_value qe (embedding_of x) \<le> cos_value qe emb"
         "get_semantic cx h now (Some qe) =
            (if cos_value qe emb \<ge> similarity_threshold cx
             then semantic_hit cx h (cos_value qe emb) (Some d) (Some hs)
             else count_miss cx h)"
      using u by auto
    have "Max ?S = cos_value qe emb"
    proof (rule Max_eqI)
      show "finite ?S" by (rule fin)
      show "cos_value qe emb \<in> ?S" unfolding p(1) by (force simp: embedding_of_def)
      fix y assume "y \<in> ?S"
      then show "y \<le> cos_value qe emb"
        unfolding p(1) using p(2,3) by (auto simp: embedding_of_def)
    qed
    moreover have mem: "(hs, (emb, d, ts, oq)) \<in> set (semantic_cache cx)"
      using unexpired_subset [of c now "semantic_cache c"] p(1) cx(2) by auto
    then obtain items where "heap_dict h d = Some items"
      using assms(6) cx(2) by fastforce
    with semantic_hit_found [OF mem, of h "cos_value qe emb" d]
    have "fst (semantic_hit cx h (cos_value qe emb) (Some d) (Some hs)) = Inr (Some (length h))"
      by auto
    ultimately show ?thesis using p(4) cx(1,4) by (simp add: count_miss_def)
  qed
qed

subsection \<open>The heap\<close>

lemma create_cache_response_fresh:
  assumes "create_cache_response h d ct s = Inr (r, h')"
  shows "r = length h \<and> length h' = Suc (length h) \<and> take (length h) h' = h"
  using assms
  by (auto simp: create_cache_response_def Let_def split: option.splits)

lemma reach_old:
  assumes "reach (h @ [ob]) a b" "heap_closed h" "a < length h"
  shows "b < length h"
  using assms
proof (induction rule: reach.induct)
  case (reach_self a)
  then show ?case by simp
next
  case (reach_step a b c)
  then have b: "b < length h" by simp
  then have "(h @ [ob]) ! b = h ! b" by (simp add: nth_append)
  with reach_step(3) have "c \<in> set (obj_refs (h ! b))" by simp
  moreover have "h ! b \<in> set h" using b by simp
  ultimately show ?case using reach_step.prems(1)
    by (auto simp: heap_closed_def list_all_iff)
qed

text \<open>
  The dictionary a hit returns is a new object that no object of the old heap refers to:
  assigning to its keys changes no stored payload.
\<close>

lemma response_top_level_private:
  assumes "create_cache_response h d ct s = Inr (r, h')" "heap_closed h" "a < length h"
  shows "\<not> reach h' a r \<and> (h'[r := ob]) ! a = h ! a"
proof -
  from assms(1) obtain items where
    r: "r = length h" and h': "h' = h @ [ODict items]"
    by (auto simp: create_cache_response_def Let_def split: option.splits)
  have "\<not> reach h' a r"
    using reach_old [of h "ODict items" a r] assms(2,3) r h' by auto
  moreover have "(h'[r := ob]) ! a = h ! a"
    using assms(3) r h' by (simp add: nth_append)
  ultimately show ?thesis by simp
qed


subsection \<open>Unique keys\<close>

text \<open>
  The constructor establishes \<open>keys_unique\<close>, and \<open>set\<close> and \<open>get\<close> keep it, whatever
  their outcome.
\<close>

lemma delete_key_absent: "(k, b) \<notin> set (AList.delete k od)"
  using delete_notin_dom [of k od] by force

lemma distinct_promote:
  "distinct (map fst od) \<Longrightarrow> distinct (map fst (AList.delete k od @ [(k, v)]))"
  using delete_notin_dom [of k od] by (simp add: distinct_delete)

lemma keys_unique_evict_bigger: "keys_unique c \<Longrightarrow> keys_unique (evict_bigger c)"
  by (auto simp: keys_unique_def evict_bigger_def distinct_tl map_tl)

lemma keys_unique_ensure_loop: "keys_unique c \<Longrightarrow> keys_unique (ensure_loop t c)"
  by (induction t c rule: ensure_loop.induct)
     (subst ensure_loop.simps, simp add: keys_unique_evict_bigger)

lemma keys_unique_init: "init ms thr ttl en = Inr c \<Longrightarrow> keys_unique c"
  by (auto simp: init_def keys_unique_def)

lemma keys_unique_set:
  assumes "keys_unique c" "set_cache H c now q d k emb = Inr c'"
  shows "keys_unique c'"
proof -
  from assms(2) obtain c1 where c1: "store_entry H c now q d k emb = Inr c1"
    "c' = ensure_cache_size c1"
    by (auto simp: set_cache_def split: sum.splits)
  have "keys_unique c1"
    using assms(1) c1(1)
    by (cases emb)
       (auto simp: store_entry_def Let_def move_to_end_update keys_unique_def distinct_delete
             delete_key_absent split: if_splits)
  then show ?thesis by (simp add: c1(2) ensure_cache_size_def keys_unique_ensure_loop)
qed

lemma keys_unique_get_semantic:
  "keys_unique c \<Longrightarrow> keys_unique (fst (snd (get_semantic c h now emb)))"
  by (auto simp: get_semantic_def semantic_hit_def count_miss_def move_to_end_def Let_def
        keys_unique_def distinct_delete create_cache_response_def delete_key_absent
        split: option.splits sum.splits prod.splits if_splits)

lemma keys_unique_get:
  assumes "keys_unique c"
  shows "keys_unique (fst (snd (get H c h now q k emb)))"
proof -
  let ?qh = "generate_query_hash H q k"
  have a: "keys_unique (c\<lparr>exact_cache := AList.delete ?qh (exact_cache c), stats := s\<rparr>)" for s
    using assms by (simp add: keys_unique_def distinct_delete)
  have b: "keys_unique (c\<lparr>exact_cache := AList.delete ?qh (exact_cache c) @ [(?qh, e)], stats := s\<rparr>)" for s e
    using assms distinct_promote [of "exact_cache c" ?qh e] by (simp add: keys_unique_def)
  have c: "keys_unique (c\<lparr>stats := s\<rparr>)" for s
    using assms by (simp add: keys_unique_def)
  show ?thesis
    by (simp add: get_def Let_def keys_unique_get_semantic a b c
          split: option.splits sum.splits prod.splits)
qed

subsection \<open>Evaluation of the examples\<close>

lemma hash_examples:
  "generate_query_hash id ''q'' 5 = ''q|k=5''"
  "generate_query_hash id ''a'' 5 = ''a|k=5''"
  by code_simp+

lemma cos_examples:
  "cos_value [1, 0] [0, 1] = 0"
  "cos_value [1, 0] [1, 0] = 1"
  "cos_value [1, 0] [2, 0] = 1"
  "cos_value [1] [1] = 1"
  by (simp_all add: cos_value_def dot_def l2_norm_def)

lemmas lookup_eval =
  get_def get_semantic_def semantic_hit_def count_miss_def create_cache_response_def
  heap_dict_def move_to_end_def is_expired_def cosine_similarity_def scan_step
  scan_expired_head exact_lookup_hits_def unexpired_def embedding_of_def zero_stats_def

section \<open>The claims\<close>

subsection \<open>C1: the capacity bound after \<open>set\<close>\<close>

text \<open>
  C1 (as amended).  For a cache whose \<open>max_size\<close> is not negative, every \<open>set\<close> call
  returns, whatever state the earlier operations left, and when it returns the combined
  occupancy of the two stores is at most \<open>max_size\<close>.  The bound is restored by running
  \<open>evict_bigger\<close> once per entry above the bound on the state the write left: each run
  removes the single oldest entry of the store that holds the greater count at that
  moment, the exact store on a tie.
\<close>

theorem set_restores_capacity:
  assumes "0 \<le> max_size c"
  shows "\<exists>c1 c'. store_entry H c now q d k emb = Inr c1
           \<and> set_cache H c now q d k emb = Inr c'
           \<and> c' = (evict_bigger ^^ nat (occupancy c1 - max_size c)) c1
           \<and> max_size c' = max_size c
           \<and> occupancy c' \<le> max_size c'"
proof -
  obtain c1 where c1: "store_entry H c now q d k emb = Inr c1" "max_size c1 = max_size c"
    using store_entry_total by blast
  let ?c' = "ensure_cache_size c1"
  have "set_cache H c now q d k emb = Inr ?c'" by (simp add: set_cache_def c1)
  moreover have "?c' = (evict_bigger ^^ nat (occupancy c1 - max_size c)) c1"
    by (simp add: ensure_cache_size_def ensure_loop_funpow c1)
  moreover have "max_size ?c' = max_size c"
    by (simp add: ensure_cache_size_def max_size_ensure_loop c1)
  moreover have "occupancy ?c' \<le> max_size ?c'"
    using assms ensure_loop_bound [of c1 "occupancy c1"]
    by (simp add: ensure_cache_size_def max_size_ensure_loop c1)
  ultimately show ?thesis using c1 by blast
qed

text \<open>
  The theorem at the cache that holds \<^verbatim>\<open>q1\<close> and \<^verbatim>\<open>q2\<close> and has room for two: writing
  \<^verbatim>\<open>q3\<close> evicts \<^verbatim>\<open>q1\<close>, the oldest entry, and counts one eviction.
\<close>

theorem set_restores_capacity_witness:
  "0 \<le> max_size two_cache
   \<and> (\<exists>c1 c'. store_entry id two_cache 2 ''q3'' 0 5 None = Inr c1
           \<and> set_cache id two_cache 2 ''q3'' 0 5 None = Inr c'
           \<and> c' = (evict_bigger ^^ nat (occupancy c1 - max_size two_cache)) c1
           \<and> max_size c' = max_size two_cache
           \<and> occupancy c' \<le> max_size c')
   \<and> set_cache id two_cache 2 ''q3'' 0 5 None =
       Inr (two_cache\<lparr>exact_cache :=
                         [(''q2|k=5'', \<lparr>data = 0, timestamp = 1, query = ''q2''\<rparr>),
                          (''q3|k=5'', \<lparr>data = 0, timestamp = 2, query = ''q3''\<rparr>)],
                       stats := zero_stats\<lparr>evictions := 1\<rparr>\<rparr>)"
proof -
  have "0 \<le> max_size two_cache" by (simp add: two_cache_def)
  moreover note set_restores_capacity [OF this, of id 2 "''q3''" 0 5 None]
  moreover have "set_cache id two_cache 2 ''q3'' 0 5 None =
       Inr (two_cache\<lparr>exact_cache :=
                         [(''q2|k=5'', \<lparr>data = 0, timestamp = 1, query = ''q2''\<rparr>),
                          (''q3|k=5'', \<lparr>data = 0, timestamp = 2, query = ''q3''\<rparr>)],
                       stats := zero_stats\<lparr>evictions := 1\<rparr>\<rparr>)"
    by code_simp
  ultimately show ?thesis by blast
qed

text \<open>
  The claim as stated, for every cache: the constructor accepts the capacity \<open>-1\<close>, and
  after a \<open>set\<close> on that cache both stores are empty, so the occupancy \<open>0\<close> is above
  \<open>max_size\<close>.
\<close>

theorem set_capacity_counterexample:
  "init (- 1) (92 / 100) (Some 3600) True = Inr negative_cache
   \<and> (case set_cache id negative_cache 0 ''a'' 0 5 None of
         Inl e \<Rightarrow> False
       | Inr c' \<Rightarrow> occupancy c' = 0 \<and> max_size c' = - 1
                  \<and> \<not> occupancy c' \<le> max_size c')"
  by code_simp

subsection \<open>C2: \<open>set\<close> followed by \<open>get\<close>\<close>

text \<open>
  C2 (as amended).  Let the cache have room for at least two entries, or for one entry
  while its semantic store is empty and the \<open>set\<close> call writes no semantic entry.  Then
  for every query \<open>q\<close>, payload dictionary and \<open>k\<close>, \<open>set(q, payload, k)\<close> followed by
  \<open>get(q, k)\<close> before the time-to-live of the entry has elapsed returns a new dictionary
  that holds the items of the payload plus \<open>_cache_hit = True\<close> and
  \<open>_cache_type = 'exact'\<close>, and counts one exact hit.
\<close>

theorem set_get_roundtrip:
  assumes "2 \<le> max_size c
           \<or> (1 \<le> max_size c \<and> semantic_cache c = []
               \<and> (emb = None \<or> \<not> enable_semantic_cache c))"
      and "heap_dict h payload = Some items"
      and "\<not> is_expired c t' t"
  shows "\<exists>c1 c2. set_cache H c t q payload k emb = Inr c1
           \<and> get H c1 h t' q k emb' =
               (Inr (Some (length h)), c2,
                h @ [ODict (AList.update ''_cache_type'' (VStr ''exact'')
                              (AList.update ''_cache_hit'' (VBool True) items))])
           \<and> exact_hits (stats c2) = exact_hits (stats c) + 1"
proof -
  let ?qh = "generate_query_hash H q k"
  let ?e = "\<lparr>data = payload, timestamp = t, query = q\<rparr>"
  obtain c0 where c0: "store_entry H c t q payload k emb = Inr c0"
    "exact_cache c0 = AList.delete ?qh (exact_cache c) @ [(?qh, ?e)]"
    "max_size c0 = max_size c" "ttl_seconds c0 = ttl_seconds c" "stats c0 = stats c"
    "emb = None \<or> \<not> enable_semantic_cache c \<longrightarrow> semantic_cache c0 = semantic_cache c"
    using store_entry_exact [of H c t q payload k emb] by blast
  let ?c1 = "ensure_cache_size c0"
  have s: "set_cache H c t q payload k emb = Inr ?c1" by (simp add: set_cache_def c0)
  have "keeps_newest c0" using assms(1) c0 by (auto simp: keeps_newest_def)
  then obtain j where j: "j < length (exact_cache c0)"
    "exact_cache ?c1 = drop j (exact_cache c0)"
    using ensure_loop_keeps [of "occupancy c0" c0] by (auto simp: ensure_cache_size_def)
  have m: "map_of (exact_cache ?c1) ?qh = Some ?e"
    using j map_of_drop_newest [of j ?qh "exact_cache c" ?e] by (simp add: c0)
  have x: "\<not> is_expired ?c1 t' (timestamp ?e)"
    using assms(3) by (simp add: is_expired_def ensure_cache_size_def ttl_seconds_ensure_loop c0)
  have d: "heap_dict h (data ?e) = Some items" using assms(2) by simp
  from get_exact_hit [OF m x d, of emb'] obtain c2 where
    "get H ?c1 h t' q k emb' =
       (Inr (Some (length h)), c2,
        h @ [ODict (AList.update ''_cache_type'' (VStr ''exact'')
                      (AList.update ''_cache_hit'' (VBool True) items))])"
    "exact_hits (stats c2) = exact_hits (stats ?c1) + 1" by blast
  moreover have "exact_hits (stats ?c1) = exact_hits (stats c)"
    by (simp add: ensure_cache_size_def exact_hits_ensure_loop c0)
  ultimately show ?thesis using s by auto
qed

text \<open>
  The theorem at the cache of capacity two that holds \<^verbatim>\<open>q1\<close> and \<^verbatim>\<open>q2\<close>: \<^verbatim>\<open>q3\<close> is
  written at time \<open>2\<close> and read back at time \<open>3\<close>.
\<close>

theorem set_get_roundtrip_witness:
  "2 \<le> max_size two_cache
   \<and> heap_dict answer_heap 0 = Some [(''answer'', VStr ''42'')]
   \<and> \<not> is_expired two_cache 3 2
   \<and> (\<exists>c1 c2. set_cache id two_cache 2 ''q3'' 0 5 None = Inr c1
          \<and> get id c1 answer_heap 3 ''q3'' 5 None =
               (Inr (Some 1), c2,
                answer_heap @ [ODict [(''answer'', VStr ''42''), (''_cache_hit'', VBool True),
                                      (''_cache_type'', VStr ''exact'')]])
          \<and> exact_hits (stats c2) = exact_hits (stats two_cache) + 1)"
proof -
  have a: "2 \<le> max_size two_cache" by (simp add: two_cache_def)
  have b: "heap_dict answer_heap 0 = Some [(''answer'', VStr ''42'')]"
    by (simp add: heap_dict_def answer_heap_def)
  have c: "\<not> is_expired two_cache 3 2" by (simp add: is_expired_def two_cache_def)
  from a have a': "2 \<le> max_size two_cache
      \<or> (1 \<le> max_size two_cache \<and> semantic_cache two_cache = []
          \<and> (None = (None :: real list option) \<or> \<not> enable_semantic_cache two_cache))"
    by simp
  have l: "length answer_heap = 1" by (simp add: answer_heap_def)
  show ?thesis
    using set_get_roundtrip [OF a' b c, of id "''q3''" 5 None] a b c
    by (simp add: l)
qed

text \<open>
  The claim as stated: in a cache constructed with \<open>max_size = 1\<close>, a \<open>set\<close> that also
  writes a semantic entry brings the occupancy to two; the eviction pass finds one entry
  in each store and evicts from the exact store, the entry just written.  The \<open>get\<close> that
  follows is a miss.
\<close>

theorem roundtrip_counterexample:
  "init 1 (92 / 100) (Some 3600) True = Inr one_cache
   \<and> (case set_cache id one_cache 0 ''q'' 0 5 (Some [1]) of
         Inl e \<Rightarrow> False
       | Inr c1 \<Rightarrow> exact_cache c1 = []
                  \<and> fst (get id c1 answer_heap 0 ''q'' 5 None) = Inr None)"
proof -
  have "init 1 (92 / 100) (Some 3600) True = Inr one_cache"
    by code_simp
  moreover have "set_cache id one_cache 0 ''q'' 0 5 (Some [1]) =
      Inr (one_cache\<lparr>semantic_cache := [(''q|k=5'', ([1], 0, 0, ''q''))],
                      stats := zero_stats\<lparr>evictions := 1\<rparr>\<rparr>)"
    by code_simp
  ultimately show ?thesis
    by (simp add: get_def get_semantic_def count_miss_def hash_examples one_cache_def)
qed

subsection \<open>C3: the constructor\<close>

text \<open>
  C3 (as amended).  Constructing a \<^verbatim>\<open>QueryCache\<close> never fails: every \<open>max_size\<close> and
  every \<open>ttl_seconds\<close>, a non-positive capacity and a negative time-to-live included, is
  accepted and stored as given, with both stores empty and all counters zero; the values
  are tolerated at runtime, a later \<open>set\<close> on the cache returns normally.
\<close>

theorem init_accepts_all:
  "\<exists>c. init ms thr ttl en = Inr c \<and> max_size c = ms \<and> ttl_seconds c = ttl
       \<and> similarity_threshold c = thr \<and> enable_semantic_cache c = en
       \<and> exact_cache c = [] \<and> semantic_cache c = [] \<and> stats c = zero_stats
       \<and> (\<exists>c'. set_cache H c now q d k emb = Inr c')"
proof -
  let ?c = "\<lparr>max_size = ms, similarity_threshold = thr, ttl_seconds = ttl,
             enable_semantic_cache = en, exact_cache = [], semantic_cache = [],
             stats = zero_stats\<rparr>"
  obtain c1 where "store_entry H ?c now q d k emb = Inr c1"
    using store_entry_total by blast
  then have "\<exists>c'. set_cache H ?c now q d k emb = Inr c'" by (simp add: set_cache_def)
  then show ?thesis by (simp add: init_def)
qed

text \<open>
  The claim as stated: a capacity of \<open>0\<close> together with a time-to-live of \<open>-5\<close> seconds
  is not rejected; the constructor returns the cache.
\<close>

theorem init_counterexample:
  "init 0 (92 / 100) (Some (- 5)) True =
     Inr \<lparr>max_size = 0, similarity_threshold = 92 / 100, ttl_seconds = Some (- 5),
          enable_semantic_cache = True, exact_cache = [], semantic_cache = [],
          stats = zero_stats\<rparr>
   \<and> \<not> isl (init 0 (92 / 100) (Some (- 5)) True)"
  by (simp add: init_def)

subsection \<open>C4: the threshold of the semantic lookup\<close>

text \<open>
  C4.  The claim is that a semantic lookup is a hit when the greatest similarity over the
  unexpired entries is at least the threshold, and a miss when it is below.  With a
  positive threshold the code does that (\<open>semantic_threshold_positive\<close>).  With the
  threshold \<open>0\<close>, a value of the configured range, it does not: the cache holds one
  entry whose embedding is orthogonal to the query's, the greatest similarity \<open>0\<close>
  equals the threshold, and the lookup raises \<^verbatim>\<open>KeyError\<close> instead of returning the
  entry, because the loop never replaced its initial best entry \<^verbatim>\<open>None\<close>.
\<close>

theorem threshold_zero_raises:
  "init 1000 0 (Some 3600) True = Inr zero_threshold_cache
   \<and> set_cache id zero_threshold_cache 0 ''p'' 0 5 (Some [0, 1]) = Inr orthogonal_cache
   \<and> similarity_threshold orthogonal_cache = 0
   \<and> cosine_similarity [1, 0] [0, 1] = Inr 0
   \<and> fst (get id orthogonal_cache answer_heap 1 ''q'' 5 (Some [1, 0])) = Inl KeyError"
proof -
  have "init 1000 0 (Some 3600) True = Inr zero_threshold_cache" by code_simp
  moreover have "set_cache id zero_threshold_cache 0 ''p'' 0 5 (Some [0, 1]) = Inr orthogonal_cache"
    by code_simp
  moreover have "similarity_threshold orthogonal_cache = 0"
    by (simp add: orthogonal_cache_def zero_threshold_cache_def)
  moreover have "cosine_similarity [1, 0] [0, 1] = Inr 0"
    by (simp add: cosine_similarity_def cos_examples)
  moreover have "fst (get id orthogonal_cache answer_heap 1 ''q'' 5 (Some [1, 0])) = Inl KeyError"
    by (simp add: lookup_eval hash_examples cos_examples orthogonal_cache_def
          zero_threshold_cache_def)
  ultimately show ?thesis by blast
qed

subsection \<open>C5: ties in the scan\<close>





subsection \<open>C6: embeddings of different lengths\<close>

text \<open>
  C6.  When a \<open>get\<close> call reaches the semantic lookup and one of the unexpired entries of
  the semantic store, the entries the query is compared with, has an embedding whose
  length differs from the length of the query embedding, the call fails with the
  dimension-mismatch error \<^verbatim>\<open>InvalidEmbedding\<close> of the similarity computation: \<open>get\<close>
  catches nothing, so the error reaches the caller, and the mismatch is not counted as
  a similarity of zero.
\<close>

theorem dimension_mismatch_raises:
  assumes "\<not> exact_lookup_hits H c now q k"
      and "enable_semantic_cache c"
      and "x \<in> set (unexpired c now (semantic_cache c))"
      and "length (embedding_of x) \<noteq> length qe"
  shows "fst (get H c h now q k (Some qe)) = Inl InvalidEmbedding"
proof -
  obtain cx where cx: "get H c h now q k (Some qe) = get_semantic cx h now (Some qe)"
    "semantic_cache cx = semantic_cache c" "ttl_seconds cx = ttl_seconds c"
    "enable_semantic_cache cx = enable_semantic_cache c"
    using get_semantic_path [OF assms(1)] by blast
  have u: "unexpired cx now (semantic_cache cx) = unexpired c now (semantic_cache c)"
    using unexpired_cong [of cx c now "semantic_cache c"] cx by simp
  have "\<exists>x \<in> set (unexpired cx now (semantic_cache cx)). length (embedding_of x) \<noteq> length qe"
    using assms(3,4) u by auto
  moreover have "enable_semantic_cache cx" using assms(2) cx by simp
  ultimately show ?thesis using get_semantic_mismatch [of cx now qe h] by (simp add: cx)
qed

text \<open>The theorem at a query of two components against a stored embedding of three.\<close>

theorem dimension_mismatch_raises_witness:
  "\<not> exact_lookup_hits id mismatch_cache 1 ''q'' 5
   \<and> enable_semantic_cache mismatch_cache
   \<and> (''p|k=5'', ([1, 0, 0], 0, 0, ''p'')) \<in> set (unexpired mismatch_cache 1 (semantic_cache mismatch_cache))
   \<and> length (embedding_of (''p|k=5'', ([1, 0, 0], 0, 0, ''p''))) \<noteq> length [1 :: real, 0]
   \<and> fst (get id mismatch_cache answer_heap 1 ''q'' 5 (Some [1, 0])) = Inl InvalidEmbedding"
proof -
  have a: "\<not> exact_lookup_hits id mismatch_cache 1 ''q'' 5"
    by (simp add: exact_lookup_hits_def mismatch_cache_def hash_examples)
  have b: "enable_semantic_cache mismatch_cache" by (simp add: mismatch_cache_def)
  have c: "(''p|k=5'', ([1, 0, 0], 0, 0, ''p''))
             \<in> set (unexpired mismatch_cache 1 (semantic_cache mismatch_cache))"
    by (simp add: unexpired_def mismatch_cache_def is_expired_def)
  have d: "length (embedding_of (''p|k=5'', ([1, 0, 0], 0 :: nat, 0 :: real, ''p'')))
             \<noteq> length [1 :: real, 0]"
    by (simp add: embedding_of_def)
  from dimension_mismatch_raises [OF a b c d, of answer_heap] a b c d
  show ?thesis by simp
qed

subsection \<open>C7: the returned payload is a copy\<close>

text \<open>
  C7.  The claim is that no mutation of any part of a returned payload changes the stored
  entry.  The returned dictionary itself is a new object that nothing stored refers to
  (\<open>response_top_level_private\<close>), but \<^verbatim>\<open>dict.copy()\<close> copies one level only: the
  objects the items refer to are shared.  For the stored payload
  \<^verbatim>\<open>{'sources': ['doc1']}\<close> the hit returns object \<open>2\<close>, whose item \<^verbatim>\<open>sources\<close> is
  the list object \<open>1\<close> of the stored payload; after the caller's
  \<^verbatim>\<open>response['sources'].append('x')\<close> the stored entry reads \<^verbatim>\<open>['doc1', 'x']\<close>.
\<close>

theorem shallow_copy_shares_nested:
  "set_cache id (nested_cache\<lparr>exact_cache := []\<rparr>) 0 ''q'' 0 5 None = Inr nested_cache
   \<and> get id nested_cache nested_heap 1 ''q'' 5 None =
       (Inr (Some 2),
        nested_cache\<lparr>stats := zero_stats\<lparr>exact_hits := 1, total_queries := 1\<rparr>\<rparr>,
        nested_heap @ [ODict [(''sources'', VRef 1), (''_cache_hit'', VBool True),
                              (''_cache_type'', VStr ''exact'')]])
   \<and> deref_item (nested_heap @ [ODict [(''sources'', VRef 1), (''_cache_hit'', VBool True),
                                        (''_cache_type'', VStr ''exact'')]]) 2 ''sources''
       = Some (OList [VStr ''doc1''])
   \<and> deref_item (nested_heap @ [ODict [(''sources'', VRef 1), (''_cache_hit'', VBool True),
                                        (''_cache_type'', VStr ''exact'')]]) 0 ''sources''
       = Some (OList [VStr ''doc1''])
   \<and> deref_item
        (list_append (nested_heap @ [ODict [(''sources'', VRef 1), (''_cache_hit'', VBool True),
                                            (''_cache_type'', VStr ''exact'')]]) 1 (VStr ''x''))
        0 ''sources''
       = Some (OList [VStr ''doc1'', VStr ''x''])"
proof -
  have "set_cache id (nested_cache\<lparr>exact_cache := []\<rparr>) 0 ''q'' 0 5 None = Inr nested_cache"
    by code_simp
  moreover have "get id nested_cache nested_heap 1 ''q'' 5 None =
       (Inr (Some 2),
        nested_cache\<lparr>stats := zero_stats\<lparr>exact_hits := 1, total_queries := 1\<rparr>\<rparr>,
        nested_heap @ [ODict [(''sources'', VRef 1), (''_cache_hit'', VBool True),
                              (''_cache_type'', VStr ''exact'')]])"
    by (simp add: lookup_eval hash_examples nested_cache_def nested_heap_def)
  moreover have "deref_item (nested_heap @ [ODict [(''sources'', VRef 1), (''_cache_hit'', VBool True),
                                        (''_cache_type'', VStr ''exact'')]]) 2 ''sources''
       = Some (OList [VStr ''doc1''])"
    by code_simp
  moreover have "deref_item (nested_heap @ [ODict [(''sources'', VRef 1), (''_cache_hit'', VBool True),
                                        (''_cache_type'', VStr ''exact'')]]) 0 ''sources''
       = Some (OList [VStr ''doc1''])"
    by code_simp
  moreover have "deref_item
        (list_append (nested_heap @ [ODict [(''sources'', VRef 1), (''_cache_hit'', VBool True),
                                            (''_cache_type'', VStr ''exact'')]]) 1 (VStr ''x''))
        0 ''sources''
       = Some (OList [VStr ''doc1'', VStr ''x''])"
    by code_simp
  ultimately show ?thesis by blast
qed


subsection \<open>C8: an expired exact entry\<close>

text \<open>
  C8 (as amended).  For every \<open>get\<close> whose fingerprint is in the exact store with an
  entry whose age exceeds the time-to-live: the entry is removed from the exact store,
  \<open>ttl_expirations\<close> increments by one, no exact hit is counted, and the call continues
  with the semantic lookup on the state so changed.  It reports a miss when semantic
  caching is disabled or no query embedding is supplied; otherwise the semantic lookup
  decides the outcome.
\<close>

theorem expired_exact_entry:
  assumes "map_of (exact_cache c) (generate_query_hash H q k) = Some entry"
      and "is_expired c now (timestamp entry)"
  shows "exact_cache (fst (snd (get H c h now q k emb)))
           = AList.delete (generate_query_hash H q k) (exact_cache c)
       \<and> map_of (exact_cache (fst (snd (get H c h now q k emb)))) (generate_query_hash H q k) = None
       \<and> ttl_expirations (stats (fst (snd (get H c h now q k emb))))
           = ttl_expirations (stats c) + 1
       \<and> exact_hits (stats (fst (snd (get H c h now q k emb)))) = exact_hits (stats c)
       \<and> (emb = None \<or> \<not> enable_semantic_cache c \<longrightarrow>
            fst (get H c h now q k emb) = Inr None
            \<and> misses (stats (fst (snd (get H c h now q k emb)))) = misses (stats c) + 1)
       \<and> get H c h now q k emb =
           get_semantic
             (c\<lparr>exact_cache := AList.delete (generate_query_hash H q k) (exact_cache c),
                stats := (stats c)\<lparr>total_queries := total_queries (stats c) + 1,
                                   ttl_expirations := ttl_expirations (stats c) + 1\<rparr>\<rparr>)
             h now emb"
proof -
  let ?qh = "generate_query_hash H q k"
  let ?cx = "c\<lparr>exact_cache := AList.delete ?qh (exact_cache c),
                stats := (stats c)\<lparr>total_queries := total_queries (stats c) + 1,
                                   ttl_expirations := ttl_expirations (stats c) + 1\<rparr>\<rparr>"
  have g: "get H c h now q k emb = get_semantic ?cx h now emb"
    using assms by (simp add: get_def Let_def is_expired_def)
  have f: "exact_cache (fst (snd (get_semantic ?cx h now emb))) = exact_cache ?cx"
    "ttl_expirations (stats (fst (snd (get_semantic ?cx h now emb)))) = ttl_expirations (stats ?cx)"
    "exact_hits (stats (fst (snd (get_semantic ?cx h now emb)))) = exact_hits (stats ?cx)"
    using get_semantic_frame [of ?cx h now emb] by blast+
  have m: "emb = None \<or> \<not> enable_semantic_cache c \<longrightarrow>
            fst (get H c h now q k emb) = Inr None
            \<and> misses (stats (fst (snd (get H c h now q k emb)))) = misses (stats c) + 1"
  proof
    assume "emb = None \<or> \<not> enable_semantic_cache c"
    then have "get_semantic ?cx h now emb = count_miss ?cx h"
      by (intro get_semantic_off) simp
    then show "fst (get H c h now q k emb) = Inr None
            \<and> misses (stats (fst (snd (get H c h now q k emb)))) = misses (stats c) + 1"
      by (simp add: g count_miss_def)
  qed
  have d: "map_of (AList.delete ?qh (exact_cache c)) ?qh = None"
    by (simp add: delete_conv')
  have e: "exact_cache ?cx = AList.delete ?qh (exact_cache c)"
    "ttl_expirations (stats ?cx) = ttl_expirations (stats c) + 1"
    "exact_hits (stats ?cx) = exact_hits (stats c)" by simp_all
  show ?thesis
    unfolding g [symmetric] f [unfolded g [symmetric] e]
    using m d g by blast
qed


text \<open>
  The theorem at the cache with a time-to-live of one minute, read at time \<open>100\<close>
  without an embedding: the entry \<^verbatim>\<open>a\<close> of time \<open>0\<close> is removed and the call is a miss.
\<close>

theorem expired_exact_entry_witness:
  "map_of (exact_cache stale_cache) (generate_query_hash id ''a'' 5)
     = Some \<lparr>data = 0, timestamp = 0, query = ''a''\<rparr>
   \<and> is_expired stale_cache 100 (timestamp \<lparr>data = 0, timestamp = 0, query = ''a''\<rparr>)
   \<and> get id stale_cache answer_heap 100 ''a'' 5 None =
       (Inr None,
        stale_cache\<lparr>exact_cache := [(''b|k=5'', \<lparr>data = 0, timestamp = 50, query = ''b''\<rparr>)],
                    stats := zero_stats\<lparr>misses := 1, total_queries := 1,
                                        ttl_expirations := 1\<rparr>\<rparr>,
        answer_heap)
   \<and> exact_cache (fst (snd (get id stale_cache answer_heap 100 ''a'' 5 None)))
       = AList.delete (generate_query_hash id ''a'' 5) (exact_cache stale_cache)
   \<and> ttl_expirations (stats (fst (snd (get id stale_cache answer_heap 100 ''a'' 5 None))))
       = ttl_expirations (stats stale_cache) + 1
   \<and> fst (get id stale_cache answer_heap 100 ''a'' 5 None) = Inr None"
proof -
  have a: "map_of (exact_cache stale_cache) (generate_query_hash id ''a'' 5)
             = Some \<lparr>data = 0, timestamp = 0, query = ''a''\<rparr>"
    by (simp add: stale_cache_def minute_cache_def hash_examples)
  have b: "is_expired stale_cache 100 (timestamp \<lparr>data = 0, timestamp = 0, query = ''a''\<rparr>)"
    by (simp add: is_expired_def stale_cache_def minute_cache_def)
  have g: "get id stale_cache answer_heap 100 ''a'' 5 None =
       (Inr None,
        stale_cache\<lparr>exact_cache := [(''b|k=5'', \<lparr>data = 0, timestamp = 50, query = ''b''\<rparr>)],
                    stats := zero_stats\<lparr>misses := 1, total_queries := 1,
                                        ttl_expirations := 1\<rparr>\<rparr>,
        answer_heap)"
    by (simp add: lookup_eval hash_examples stale_cache_def minute_cache_def)
  from expired_exact_entry [OF a b, of answer_heap None] a b g
  show ?thesis by simp
qed

text \<open>
  The claim as stated: the same call with the embedding \<open>(1)\<close>.  The entry \<^verbatim>\<open>a\<close> has
  expired and is removed, but the semantic entry \<^verbatim>\<open>b\<close>, written at time \<open>50\<close>, has not
  expired and has similarity \<open>1\<close>: the call returns a semantic hit, not a miss.
\<close>

theorem expired_exact_counterexample:
  "init 1000 (92 / 100) (Some 60) True = Inr minute_cache
   \<and> (case set_cache id minute_cache 0 ''a'' 0 5 None of
         Inl e \<Rightarrow> False
       | Inr c1 \<Rightarrow> set_cache id c1 50 ''b'' 0 5 (Some [1]) = Inr stale_cache)
   \<and> map_of (exact_cache stale_cache) (generate_query_hash id ''a'' 5)
       = Some \<lparr>data = 0, timestamp = 0, query = ''a''\<rparr>
   \<and> is_expired stale_cache 100 0
   \<and> get id stale_cache answer_heap 100 ''a'' 5 (Some [1]) =
       (Inr (Some 1),
        stale_cache\<lparr>exact_cache := [(''b|k=5'', \<lparr>data = 0, timestamp = 50, query = ''b''\<rparr>)],
                    stats := zero_stats\<lparr>semantic_hits := 1, total_queries := 1,
                                        ttl_expirations := 1\<rparr>\<rparr>,
        answer_heap @ [ODict [(''answer'', VStr ''42''), (''_cache_hit'', VBool True),
                              (''_cache_type'', VStr ''semantic''),
                              (''_cache_similarity'', VFloat 1)]])
   \<and> fst (get id stale_cache answer_heap 100 ''a'' 5 (Some [1])) \<noteq> Inr None"
proof -
  have "init 1000 (92 / 100) (Some 60) True = Inr minute_cache" by code_simp
  moreover have "(case set_cache id minute_cache 0 ''a'' 0 5 None of
         Inl e \<Rightarrow> False
       | Inr c1 \<Rightarrow> set_cache id c1 50 ''b'' 0 5 (Some [1]) = Inr stale_cache)"
    by code_simp
  moreover have "map_of (exact_cache stale_cache) (generate_query_hash id ''a'' 5)
             = Some \<lparr>data = 0, timestamp = 0, query = ''a''\<rparr>"
    by (simp add: stale_cache_def minute_cache_def hash_examples)
  moreover have "is_expired stale_cache 100 0"
    by (simp add: is_expired_def stale_cache_def minute_cache_def)
  moreover have g: "get id stale_cache answer_heap 100 ''a'' 5 (Some [1]) =
       (Inr (Some 1),
        stale_cache\<lparr>exact_cache := [(''b|k=5'', \<lparr>data = 0, timestamp = 50, query = ''b''\<rparr>)],
                    stats := zero_stats\<lparr>semantic_hits := 1, total_queries := 1,
                                        ttl_expirations := 1\<rparr>\<rparr>,
        answer_heap @ [ODict [(''answer'', VStr ''42''), (''_cache_hit'', VBool True),
                              (''_cache_type'', VStr ''semantic''),
                              (''_cache_similarity'', VFloat 1)]])"
    by (simp add: lookup_eval hash_examples cos_examples stale_cache_def minute_cache_def
          answer_heap_def)
  moreover have "fst (get id stale_cache answer_heap 100 ''a'' 5 (Some [1])) \<noteq> Inr None"
    by (simp add: g)
  ultimately show ?thesis by blast
qed

subsection \<open>C9: the statistics\<close>



subsection \<open>C10: a threshold that is not positive\<close>

text \<open>
  C10 (as amended).  Let semantic caching be enabled, a query embedding be supplied and
  the threshold be at most \<open>0\<close>.  Then every \<open>get\<close> call that the exact store does not
  answer, and in which no unexpired entry of the semantic store has a similarity above
  \<open>0\<close>, raises an exception instead of returning a miss: when the embeddings compared
  have the length of the query embedding, and in particular when the semantic store is
  empty, the exception is the \<^verbatim>\<open>KeyError\<close> of promoting the best entry \<^verbatim>\<open>None\<close>.
\<close>

theorem nonpositive_threshold_raises:
  assumes "\<not> exact_lookup_hits H c now q k"
      and "enable_semantic_cache c"
      and "similarity_threshold c \<le> 0"
      and "\<forall>x \<in> set (unexpired c now (semantic_cache c)).
             \<forall>s. cosine_similarity qe (embedding_of x) = Inr s \<longrightarrow> s \<le> 0"
  shows "(\<exists>e. fst (get H c h now q k (Some qe)) = Inl e)
       \<and> ((\<forall>x \<in> set (unexpired c now (semantic_cache c)). length (embedding_of x) = length qe)
            \<longrightarrow> fst (get H c h now q k (Some qe)) = Inl KeyError)"
proof -
  obtain cx where cx: "get H c h now q k (Some qe) = get_semantic cx h now (Some qe)"
    "semantic_cache cx = semantic_cache c" "ttl_seconds cx = ttl_seconds c"
    "similarity_threshold cx = similarity_threshold c"
    "enable_semantic_cache cx = enable_semantic_cache c"
    using get_semantic_path [OF assms(1)] by blast
  have u: "unexpired cx now (semantic_cache cx) = unexpired c now (semantic_cache c)"
    using unexpired_cong [of cx c now "semantic_cache c"] cx by simp
  have en: "enable_semantic_cache cx" using assms(2) cx by simp
  show ?thesis
  proof (cases "\<forall>x \<in> set (unexpired c now (semantic_cache c)). length (embedding_of x) = length qe")
    case True
    then have dims: "\<forall>x \<in> set (unexpired cx now (semantic_cache cx)). length (embedding_of x) = length qe"
      by (simp add: u)
    have le: "\<forall>x \<in> set (unexpired c now (semantic_cache c)). cos_value qe (embedding_of x) \<le> 0"
      using assms(4) True by (simp add: cosine_similarity_def)
    from get_semantic_cases [OF en dims, of h]
    have "get_semantic cx h now (Some qe) = (Inl KeyError, cx, h)"
    proof
      assume "(\<forall>x \<in> set (unexpired cx now (semantic_cache cx)). cos_value qe (embedding_of x) \<le> 0)
          \<and> get_semantic cx h now (Some qe) =
              (if 0 \<ge> similarity_threshold cx then (Inl KeyError, cx, h) else count_miss cx h)"
      then show ?thesis using assms(3) cx by simp
    next
      assume "\<exists>pre hs emb d ts oq post.
             unexpired cx now (semantic_cache cx) = pre @ [(hs, (emb, d, ts, oq))] @ post
             \<and> 0 < cos_value qe emb
             \<and> (\<forall>x \<in> set pre. cos_value qe (embedding_of x) < cos_value qe emb)
             \<and> (\<forall>x \<in> set post. cos_value qe (embedding_of x) \<le> cos_value qe emb)
             \<and> get_semantic cx h now (Some qe) =
                 (if cos_value qe emb \<ge> similarity_threshold cx
                  then semantic_hit cx h (cos_value qe emb) (Some d) (Some hs)
                  else count_miss cx h)"
      then obtain pre hs emb d ts oq post where
        "unexpired c now (semantic_cache c) = pre @ [(hs, (emb, d, ts, oq))] @ post"
        "0 < cos_value qe emb" using u by auto
      with le have False by (auto simp: embedding_of_def)
      then show ?thesis ..
    qed
    with True show ?thesis by (simp add: cx)
  next
    case False
    then have "\<exists>x \<in> set (unexpired cx now (semantic_cache cx)). length (embedding_of x) \<noteq> length qe"
      by (simp add: u)
    from get_semantic_mismatch [OF en this, of h] False show ?thesis by (simp add: cx)
  qed
qed

text \<open>The theorem at an empty cache with the threshold \<open>0\<close>.\<close>

theorem nonpositive_threshold_raises_witness:
  "\<not> exact_lookup_hits id zero_threshold_cache 0 ''q'' 5
   \<and> enable_semantic_cache zero_threshold_cache
   \<and> similarity_threshold zero_threshold_cache \<le> 0
   \<and> unexpired zero_threshold_cache 0 (semantic_cache zero_threshold_cache) = []
   \<and> fst (get id zero_threshold_cache [] 0 ''q'' 5 (Some [1, 0])) = Inl KeyError"
proof -
  have a: "\<not> exact_lookup_hits id zero_threshold_cache 0 ''q'' 5"
    by (simp add: exact_lookup_hits_def zero_threshold_cache_def)
  have b: "enable_semantic_cache zero_threshold_cache"
    and c: "similarity_threshold zero_threshold_cache \<le> 0"
    and d: "unexpired zero_threshold_cache 0 (semantic_cache zero_threshold_cache) = []"
    by (simp_all add: zero_threshold_cache_def unexpired_def)
  have e: "\<forall>x \<in> set (unexpired zero_threshold_cache 0 (semantic_cache zero_threshold_cache)).
             \<forall>s. cosine_similarity [1, 0] (embedding_of x) = Inr s \<longrightarrow> s \<le> 0"
    by (simp add: d)
  from nonpositive_threshold_raises [OF a b c e, of "[]"] a b c d
  show ?thesis by simp
qed

text \<open>
  The claim as stated, for any \<open>get\<close>: in the cache with the threshold \<open>0\<close> and an empty
  semantic store the query \<^verbatim>\<open>q\<close> is in the exact store, so the call returns the exact
  hit before the semantic lookup is reached, and nothing is raised.
\<close>

theorem threshold_exact_hit_counterexample:
  "set_cache id zero_threshold_cache 0 ''q'' 0 5 None = Inr answered_cache
   \<and> enable_semantic_cache answered_cache
   \<and> similarity_threshold answered_cache \<le> 0
   \<and> unexpired answered_cache 1 (semantic_cache answered_cache) = []
   \<and> get id answered_cache answer_heap 1 ''q'' 5 (Some [1, 0]) =
       (Inr (Some 1),
        answered_cache\<lparr>stats := zero_stats\<lparr>exact_hits := 1, total_queries := 1\<rparr>\<rparr>,
        answer_heap @ [ODict [(''answer'', VStr ''42''), (''_cache_hit'', VBool True),
                              (''_cache_type'', VStr ''exact'')]])"
proof -
  have "set_cache id zero_threshold_cache 0 ''q'' 0 5 None = Inr answered_cache"
    by code_simp
  moreover have "enable_semantic_cache answered_cache"
    "similarity_threshold answered_cache \<le> 0"
    "unexpired answered_cache 1 (semantic_cache answered_cache) = []"
    by (simp_all add: answered_cache_def zero_threshold_cache_def unexpired_def)
  moreover have "get id answered_cache answer_heap 1 ''q'' 5 (Some [1, 0]) =
       (Inr (Some 1),
        answered_cache\<lparr>stats := zero_stats\<lparr>exact_hits := 1, total_queries := 1\<rparr>\<rparr>,
        answer_heap @ [ODict [(''answer'', VStr ''42''), (''_cache_hit'', VBool True),
                              (''_cache_type'', VStr ''exact'')]])"
    by (simp add: lookup_eval hash_examples answered_cache_def zero_threshold_cache_def
          answer_heap_def)
  ultimately show ?thesis by blast
qed


end
